theory Spec2Isabelle
  imports Main
begin

section \<open>Strings\<close>

text \<open>
  A JavaScript string is modelled as a \<open>string\<close>, a text outside ASCII as its UTF-8 bytes.
  URL components are ASCII once the URL is parsed, and the literals the worker compares
  against (\<open>/metadata/\<close>, \<open>.json\<close>, \<open>direct\<close>, \<open>tar.gz\<close>, \<open>zip\<close>) are ASCII, so \<open>toLowerCase\<close>
  is modelled on the letters A to Z and leaves every other character alone.
\<close>

definition toLowerCase_char :: "char \<Rightarrow> char" where
  "toLowerCase_char c =
     (case map_of (zip ''ABCDEFGHIJKLMNOPQRSTUVWXYZ'' ''abcdefghijklmnopqrstuvwxyz'') c of
        None \<Rightarrow> c
      | Some l \<Rightarrow> l)"

definition toLowerCase :: "string \<Rightarrow> string" where
  "toLowerCase s = map toLowerCase_char s"

text \<open>\<open>s.startsWith(m)\<close> and \<open>s.endsWith(m)\<close>.\<close>

definition startsWith :: "string \<Rightarrow> string \<Rightarrow> bool" where
  "startsWith s m = (take (length m) s = m)"

definition endsWith :: "string \<Rightarrow> string \<Rightarrow> bool" where
  "endsWith s m = (length m \<le> length s \<and> drop (length s - length m) s = m)"

text \<open>
  \<open>s.indexOf(m)\<close>: the least index at which \<open>m\<close> starts in \<open>s\<close>, and \<open>-1\<close> when there is
  none.
\<close>

fun indexOf :: "string \<Rightarrow> string \<Rightarrow> int" where
  "indexOf [] m = (if m = [] then 0 else - 1)"
| "indexOf (c # t) m =
     (if startsWith (c # t) m then 0
      else (let r = indexOf t m in if r < 0 then - 1 else r + 1))"

text \<open>\<open>s.slice(i)\<close> for an index \<open>0 \<le> i\<close>.\<close>

definition slice :: "string \<Rightarrow> int \<Rightarrow> string" where
  "slice s i = drop (nat i) s"

text \<open>The decimal numeral of a natural number, as a template literal prints an index.\<close>

definition digit_char :: "nat \<Rightarrow> char" where
  "digit_char d = ''0123456789'' ! d"

fun show_nat :: "nat \<Rightarrow> string" where
  "show_nat n = (if n < 10 then [digit_char n] else show_nat (n div 10) @ [digit_char (n mod 10)])"

declare show_nat.simps [simp del]

section \<open>URLs\<close>

text \<open>
  The components of a parsed \<open>URL\<close> object: \<open>protocol\<close> with its colon, \<open>host\<close> with its
  port, the \<open>pathname\<close>, and the query and fragment, each absent (\<open>None\<close>) or present.
  The inbound URL is the one \<open>new URL(request.url)\<close> yields, so its components are in the
  parser's normal form, on which the setters' re-parsing changes nothing; the setters below
  store what they are given.
\<close>

record URL =
  protocol :: string
  host :: string
  pathname :: string
  query :: "string option"
  fragment :: "string option"

text \<open>The \<open>search\<close> and \<open>hash\<close> getters: empty when the component is absent or empty.\<close>

definition search :: "URL \<Rightarrow> string" where
  "search u = (case query u of None \<Rightarrow> [] | Some q \<Rightarrow> if q = [] then [] else CHR ''?'' # q)"

definition hash :: "URL \<Rightarrow> string" where
  "hash u = (case fragment u of None \<Rightarrow> [] | Some f \<Rightarrow> if f = [] then [] else CHR ''#'' # f)"

text \<open>
  The \<open>search\<close> and \<open>hash\<close> setters: the empty string removes the component, and one
  leading \<open>?\<close> (or \<open>#\<close>) is dropped.
\<close>

definition set_search :: "URL \<Rightarrow> string \<Rightarrow> URL" where
  "set_search u v =
     (if v = [] then u\<lparr>query := None\<rparr>
      else u\<lparr>query := Some (if hd v = CHR ''?'' then tl v else v)\<rparr>)"

definition set_hash :: "URL \<Rightarrow> string \<Rightarrow> URL" where
  "set_hash u v =
     (if v = [] then u\<lparr>fragment := None\<rparr>
      else u\<lparr>fragment := Some (if hd v = CHR ''#'' then tl v else v)\<rparr>)"

definition set_pathname :: "URL \<Rightarrow> string \<Rightarrow> URL" where
  "set_pathname u v = u\<lparr>pathname := v\<rparr>"

text \<open>\<open>url.toString()\<close>, the serialised URL.\<close>

definition href :: "URL \<Rightarrow> string" where
  "href u =
     protocol u @ ''//'' @ host u @ pathname u
       @ (case query u of None \<Rightarrow> [] | Some q \<Rightarrow> CHR ''?'' # q)
       @ (case fragment u of None \<Rightarrow> [] | Some f \<Rightarrow> CHR ''#'' # f)"

section \<open>The upstream URL\<close>

definition UPSTREAM_HOST :: string where
  "UPSTREAM_HOST = ''https://jbangdev.github.io''"

definition UPSTREAM_METADATA_PREFIX :: string where
  "UPSTREAM_METADATA_PREFIX = ''/jdkdb-data/metadata/''"

text \<open>\<open>new URL(UPSTREAM_HOST)\<close>: the parsed constant, with the root path and no query or fragment.\<close>

definition new_URL_UPSTREAM_HOST :: URL where
  "new_URL_UPSTREAM_HOST =
     \<lparr>protocol = ''https:'', host = ''jbangdev.github.io'', pathname = ''/'',
      query = None, fragment = None\<rparr>"

definition marker :: string where
  "marker = ''/metadata/''"

definition buildUpstreamMetadataUrl :: "URL \<Rightarrow> URL option" where
  "buildUpstreamMetadataUrl inbound =
     (let idx = indexOf (pathname inbound) marker in
      if idx = - 1 then None
      else
        (let rest = slice (pathname inbound) (idx + int (length marker));
             upstream = new_URL_UPSTREAM_HOST;
             upstream = set_pathname upstream (UPSTREAM_METADATA_PREFIX @ rest);
             upstream = set_search upstream (search inbound);
             upstream = set_hash upstream (hash inbound)
         in Some upstream))"

section \<open>Query parameters\<close>

text \<open>
  \<open>url.searchParams\<close> is the list of name and value pairs that the
  \<open>application/x-www-form-urlencoded\<close> parser reads from the query: the query is split at
  every \<open>&\<close>, empty pieces are skipped, each piece is split at its first \<open>=\<close>, every
  \<open>+\<close> becomes a space, percent escapes are decoded, and the bytes that result are
  decoded as UTF-8. A name or value is kept as the UTF-8 bytes of the decoded text.
\<close>

fun split_on :: "char \<Rightarrow> string \<Rightarrow> string list" where
  "split_on c [] = [[]]"
| "split_on c (x # xs) =
     (if x = c then [] # split_on c xs
      else (case split_on c xs of [] \<Rightarrow> [[x]] | p # ps \<Rightarrow> (x # p) # ps))"

definition hex_val :: "char \<Rightarrow> nat option" where
  "hex_val c =
     map_of (zip ''0123456789ABCDEF'' [0, 1, 2, 3, 4, 5, 6, 7, 8, 9, 10, 11, 12, 13, 14, 15]
             @ zip ''abcdef'' [10, 11, 12, 13, 14, 15]) c"

fun percent_decode :: "string \<Rightarrow> string" where
  "percent_decode (p # h # l # rest) =
     (if p = CHR ''%'' then
        (case (hex_val h, hex_val l) of
           (Some a, Some b) \<Rightarrow> char_of (16 * a + b) # percent_decode rest
         | _ \<Rightarrow> p # percent_decode (h # l # rest))
      else p # percent_decode (h # l # rest))"
| "percent_decode (c # rest) = c # percent_decode rest"
| "percent_decode [] = []"

definition plus_to_space :: "string \<Rightarrow> string" where
  "plus_to_space s = map (\<lambda>c. if c = CHR ''+'' then CHR '' '' else c) s"

text \<open>
  The UTF-8 decoder, as a state machine over the bytes. In the state \<open>Pending\<close> it has read
  the bytes \<open>buf\<close> of a sequence that needs \<open>n\<close> more, the next of them between \<open>lo\<close> and
  \<open>hi\<close>. A byte that cannot start a sequence yields the replacement character U+FFFD; a byte
  that cannot continue the pending sequence yields U+FFFD for that sequence and is then read
  as the start of a new one; so does the end of the input inside a sequence. A complete
  sequence is the encoding of the character it decodes to, and is kept as it is.
\<close>

definition byte_in :: "nat \<Rightarrow> nat \<Rightarrow> char \<Rightarrow> bool" where
  "byte_in lo hi c = (lo \<le> of_char c \<and> (of_char c :: nat) \<le> hi)"

definition replacement :: string where
  "replacement = [CHR 0xEF, CHR 0xBF, CHR 0xBD]"

definition bytes_needed :: "char \<Rightarrow> nat" where
  "bytes_needed b =
     (if byte_in 0xC2 0xDF b then 1
      else if byte_in 0xE0 0xEF b then 2
      else if byte_in 0xF0 0xF4 b then 3
      else 0)"

definition second_lower :: "char \<Rightarrow> nat" where
  "second_lower b = (if b = CHR 0xE0 then 0xA0 else if b = CHR 0xF0 then 0x90 else 0x80)"

definition second_upper :: "char \<Rightarrow> nat" where
  "second_upper b = (if b = CHR 0xED then 0x9F else if b = CHR 0xF4 then 0x8F else 0xBF)"

datatype utf8_state =
    Clean
  | Pending string nat nat nat

primrec utf8_run :: "string \<Rightarrow> utf8_state \<Rightarrow> string" where
  "utf8_run [] st = (case st of Clean \<Rightarrow> [] | Pending buf n lo hi \<Rightarrow> replacement)"
| "utf8_run (c # rest) st =
     (let start =
        (if (of_char c :: nat) < 0x80 then c # utf8_run rest Clean
         else if bytes_needed c = 0 then replacement @ utf8_run rest Clean
         else utf8_run rest (Pending [c] (bytes_needed c) (second_lower c) (second_upper c)))
      in case st of
           Clean \<Rightarrow> start
         | Pending buf n lo hi \<Rightarrow>
             if byte_in lo hi c then
               (if n = 1 then buf @ [c] @ utf8_run rest Clean
                else utf8_run rest (Pending (buf @ [c]) (n - 1) 0x80 0xBF))
             else replacement @ start)"

definition utf8_decode :: "string \<Rightarrow> string" where
  "utf8_decode bytes = utf8_run bytes Clean"

definition parse_pair :: "string \<Rightarrow> string \<times> string" where
  "parse_pair piece =
     (let name = takeWhile (\<lambda>c. c \<noteq> CHR ''='') piece;
          val = drop 1 (dropWhile (\<lambda>c. c \<noteq> CHR ''='') piece)
      in (utf8_decode (percent_decode (plus_to_space name)),
          utf8_decode (percent_decode (plus_to_space val))))"

definition urlencoded_parse :: "string \<Rightarrow> (string \<times> string) list" where
  "urlencoded_parse input = map parse_pair (filter (\<lambda>piece. piece \<noteq> []) (split_on CHR ''&'' input))"

definition searchParams :: "URL \<Rightarrow> (string \<times> string) list" where
  "searchParams u = urlencoded_parse (case query u of None \<Rightarrow> [] | Some q \<Rightarrow> q)"

text \<open>\<open>params.has(name)\<close>.\<close>

definition has :: "(string \<times> string) list \<Rightarrow> string \<Rightarrow> bool" where
  "has params name = (name \<in> set (map fst params))"

text \<open>
  The serialiser that writes the list back into the URL after a change: of the UTF-8 bytes
  of a name or value, those other than letters, digits and \<open>* - . _\<close> are percent-encoded,
  and a space is written \<open>+\<close>.
\<close>

definition urlencoded_keep :: "char \<Rightarrow> bool" where
  "urlencoded_keep c =
     (c \<in> set ''ABCDEFGHIJKLMNOPQRSTUVWXYZabcdefghijklmnopqrstuvwxyz0123456789*-._'')"

definition hex_digit :: "nat \<Rightarrow> char" where
  "hex_digit d = ''0123456789ABCDEF'' ! d"

definition urlencoded_byte :: "char \<Rightarrow> string" where
  "urlencoded_byte c =
     (if c = CHR '' '' then ''+''
      else if urlencoded_keep c then [c]
      else [CHR ''%'', hex_digit (of_char c div 16), hex_digit (of_char c mod 16)])"

definition urlencoded_string :: "string \<Rightarrow> string" where
  "urlencoded_string s = concat (map urlencoded_byte s)"

fun join_with :: "string \<Rightarrow> string list \<Rightarrow> string" where
  "join_with sep [] = []"
| "join_with sep [x] = x"
| "join_with sep (x # y # ys) = x @ sep @ join_with sep (y # ys)"

definition urlencoded_serialize :: "(string \<times> string) list \<Rightarrow> string" where
  "urlencoded_serialize params =
     join_with ''&'' (map (\<lambda>(name, val). urlencoded_string name @ ''='' @ urlencoded_string val) params)"

text \<open>
  \<open>url.searchParams.delete(name)\<close>: every pair with that name leaves the list, and the
  URL's query becomes the serialised list, or is removed when that is empty.
\<close>

definition searchParams_delete :: "URL \<Rightarrow> string \<Rightarrow> URL" where
  "searchParams_delete u name =
     (let serialized = urlencoded_serialize (filter (\<lambda>(n, v). n \<noteq> name) (searchParams u))
      in u\<lparr>query := (if serialized = [] then None else Some serialized)\<rparr>)"





section \<open>The direct-request classifier\<close>

definition isDirectJsonRequest :: "URL \<Rightarrow> bool" where
  "isDirectJsonRequest url \<longleftrightarrow>
     has (searchParams url) ''direct'' \<and> endsWith (toLowerCase (pathname url)) ''.json''"

section \<open>JSON values\<close>

text \<open>
  A JSON document, as \<open>JSON.parse\<close> reads it and \<open>JSON.stringify\<close> writes it. An object is
  the list of its entries in the order \<open>Object.entries\<close> yields them. A number is a leaf that
  the worker never inspects; it is kept as the text that \<open>JSON.stringify\<close> writes for it,
  which for an HTTP status is its decimal numeral.
\<close>

datatype json =
    JNull
  | JBool bool
  | JNum string
  | JStr string
  | JArr "json list"
  | JObj "(string \<times> json) list"

text \<open>
  \<open>JSON.stringify\<close> of a string: the quotes, with the double quote, the backslash and
  the control characters escaped.
\<close>

definition backslash :: char where
  "backslash = CHR 0x5C"

definition lower_hex_digit :: "nat \<Rightarrow> char" where
  "lower_hex_digit d = ''0123456789abcdef'' ! d"

definition escape_char :: "char \<Rightarrow> string" where
  "escape_char c =
     (if c = CHR 0x22 then [backslash, CHR 0x22]
      else if c = backslash then [backslash, backslash]
      else if c = CHR 0x08 then [backslash, CHR ''b'']
      else if c = CHR 0x09 then [backslash, CHR ''t'']
      else if c = CHR 0x0A then [backslash, CHR ''n'']
      else if c = CHR 0x0C then [backslash, CHR ''f'']
      else if c = CHR 0x0D then [backslash, CHR ''r'']
      else if (of_char c :: nat) < 32 then
        [backslash, CHR ''u'', CHR ''0'', CHR ''0'',
         lower_hex_digit (of_char c div 16), lower_hex_digit (of_char c mod 16)]
      else [c])"

definition quote :: "string \<Rightarrow> string" where
  "quote s = CHR 0x22 # concat (map escape_char s) @ [CHR 0x22]"

definition newline :: string where
  "newline = ''\<newline>''"

text \<open>
  \<open>JSON.stringify(v, null, 2)\<close>, at the indentation \<open>ind\<close> of the enclosing line: the
  members of a non-empty array or object stand one per line, two spaces deeper, separated by
  commas; an empty one is written \<open>[]\<close> or \<open>{}\<close>.
\<close>

fun stringify :: "string \<Rightarrow> json \<Rightarrow> string"
  and stringify_items :: "string \<Rightarrow> json list \<Rightarrow> string list"
  and stringify_entries :: "string \<Rightarrow> (string \<times> json) list \<Rightarrow> string list" where
  "stringify ind JNull = ''null''"
| "stringify ind (JBool b) = (if b then ''true'' else ''false'')"
| "stringify ind (JNum n) = n"
| "stringify ind (JStr s) = quote s"
| "stringify ind (JArr xs) =
     (if xs = [] then ''[]''
      else ''['' @ newline
           @ join_with ('','' @ newline) (stringify_items (ind @ ''  '') xs)
           @ newline @ ind @ '']'')"
| "stringify ind (JObj kvs) =
     (if kvs = [] then ''{}''
      else ''{'' @ newline
           @ join_with ('','' @ newline) (stringify_entries (ind @ ''  '') kvs)
           @ newline @ ind @ ''}'')"
| "stringify_items ind [] = []"
| "stringify_items ind (x # xs) = (ind @ stringify ind x) # stringify_items ind xs"
| "stringify_entries ind [] = []"
| "stringify_entries ind ((k, v) # kvs) =
     (ind @ quote k @ '': '' @ stringify ind v) # stringify_entries ind kvs"

definition JSON_stringify :: "json \<Rightarrow> string" where
  "JSON_stringify v = stringify [] v"

section \<open>The traversal\<close>

text \<open>
  The traversal takes any JavaScript value. Arrays and objects are references into a heap,
  so that one array or object can be reached along several paths, or from itself; every
  other value is a primitive.
\<close>

type_synonym addr = nat

datatype jsval =
    Undefined
  | Null
  | Boolean bool
  | Number string
  | String string
  | Ref addr

datatype jsobj =
    Array "jsval list"
  | Object "(string \<times> jsval) list"

type_synonym heap = "addr \<rightharpoonup> jsobj"

record DirectMatch =
  url :: string
  fileType :: string
  jsonPath :: string

definition targetTypes :: "string set" where
  "targetTypes = {''tar.gz'', ''zip''}"

text \<open>
  \<open>typeof obj.file_type === "string" ? obj.file_type.toLowerCase() : null\<close> and
  \<open>typeof obj.url === "string" ? obj.url : null\<close>, on the entries of an object.
\<close>

definition fileType_of :: "(string \<times> jsval) list \<Rightarrow> string option" where
  "fileType_of obj = (case map_of obj ''file_type'' of Some (String s) \<Rightarrow> Some (toLowerCase s) | _ \<Rightarrow> None)"

definition url_of :: "(string \<times> jsval) list \<Rightarrow> string option" where
  "url_of obj = (case map_of obj ''url'' of Some (String s) \<Rightarrow> Some s | _ \<Rightarrow> None)"

text \<open>A \<open>string | null\<close> in a condition: \<open>null\<close> and the empty string are false.\<close>

definition truthy :: "string option \<Rightarrow> bool" where
  "truthy x = (case x of None \<Rightarrow> False | Some s \<Rightarrow> s \<noteq> [])"

text \<open>
  \<open>walk\<close>, with the set \<open>seen\<close> passed in and returned. Its first argument bounds the depth
  of the recursion: \<open>None\<close> is returned where the bound is reached, and is not a result of
  the source. \<open>walk_array\<close> is the loop over an array from index \<open>i\<close> and \<open>walk_entries\<close>
  the loop over the entries of an object; both take the recursive call as their first
  argument. A reference always leads to an array or an object in JavaScript; at an address
  for which the heap holds none, \<open>walk\<close> returns without a match.
\<close>

type_synonym walk_result = "(addr set \<times> DirectMatch option) option"

fun walk_array ::
  "(addr set \<Rightarrow> jsval \<Rightarrow> string \<Rightarrow> walk_result) \<Rightarrow> addr set \<Rightarrow> jsval list \<Rightarrow> nat \<Rightarrow> string
     \<Rightarrow> walk_result" where
  "walk_array walk seen [] i path = Some (seen, None)"
| "walk_array walk seen (x # xs) i path =
     (case walk seen x (path @ ''['' @ show_nat i @ '']'') of
        None \<Rightarrow> None
      | Some (seen, Some hit) \<Rightarrow> Some (seen, Some hit)
      | Some (seen, None) \<Rightarrow> walk_array walk seen xs (Suc i) path)"

fun walk_entries ::
  "(addr set \<Rightarrow> jsval \<Rightarrow> string \<Rightarrow> walk_result) \<Rightarrow> addr set \<Rightarrow> (string \<times> jsval) list \<Rightarrow> string
     \<Rightarrow> walk_result" where
  "walk_entries walk seen [] path = Some (seen, None)"
| "walk_entries walk seen ((k, v) # kvs) path =
     (case walk seen v (if path \<noteq> [] then path @ ''.'' @ k else k) of
        None \<Rightarrow> None
      | Some (seen, Some hit) \<Rightarrow> Some (seen, Some hit)
      | Some (seen, None) \<Rightarrow> walk_entries walk seen kvs path)"

primrec walk :: "nat \<Rightarrow> heap \<Rightarrow> addr set \<Rightarrow> jsval \<Rightarrow> string \<Rightarrow> walk_result" where
  "walk 0 h = (\<lambda>seen node path. None)"
| "walk (Suc n) h = (\<lambda>seen node path.
     case node of
       Ref a \<Rightarrow>
         if a \<in> seen then Some (seen, None)
         else
           (let seen = insert a seen in
            case h a of
              None \<Rightarrow> Some (seen, None)
            | Some (Array items) \<Rightarrow> walk_array (walk n h) seen items 0 path
            | Some (Object obj) \<Rightarrow>
                (let fileType = fileType_of obj; url = url_of obj in
                 if truthy fileType \<and> truthy url \<and> the fileType \<in> targetTypes then
                   Some (seen, Some \<lparr>url = the url, fileType = the fileType, jsonPath = path\<rparr>)
                 else walk_entries (walk n h) seen obj path))
     | _ \<Rightarrow> Some (seen, None))"

text \<open>
  \<open>findFirstDirectMatch\<close> on a value of a heap: the walk from the empty \<open>seen\<close> set and the
  empty path.
\<close>

definition findFirstDirectMatch :: "nat \<Rightarrow> heap \<Rightarrow> jsval \<Rightarrow> DirectMatch option option" where
  "findFirstDirectMatch n h v = map_option snd (walk n h {} v [])"

text \<open>
  The value the worker traverses is the result of \<open>upstreamRes.json()\<close>: the parser builds
  a new array or object for every array or object of the document. \<open>alloc\<close> stores a
  document in the heap from the first free address on, and returns the value that stands
  for it.
\<close>

fun alloc :: "json \<Rightarrow> heap \<times> addr \<Rightarrow> jsval \<times> heap \<times> addr"
  and alloc_items :: "json list \<Rightarrow> heap \<times> addr \<Rightarrow> jsval list \<times> heap \<times> addr"
  and alloc_entries :: "(string \<times> json) list \<Rightarrow> heap \<times> addr \<Rightarrow> (string \<times> jsval) list \<times> heap \<times> addr" where
  "alloc JNull s = (Null, s)"
| "alloc (JBool b) s = (Boolean b, s)"
| "alloc (JNum n) s = (Number n, s)"
| "alloc (JStr t) s = (String t, s)"
| "alloc (JArr xs) (h, a) =
     (case alloc_items xs (h, Suc a) of (vs, h', a') \<Rightarrow> (Ref a, h'(a \<mapsto> Array vs), a'))"
| "alloc (JObj kvs) (h, a) =
     (case alloc_entries kvs (h, Suc a) of (es, h', a') \<Rightarrow> (Ref a, h'(a \<mapsto> Object es), a'))"
| "alloc_items [] s = ([], s)"
| "alloc_items (x # xs) s =
     (case alloc x s of (v, s') \<Rightarrow> (case alloc_items xs s' of (vs, s'') \<Rightarrow> (v # vs, s'')))"
| "alloc_entries [] s = ([], s)"
| "alloc_entries ((k, x) # kvs) s =
     (case alloc x s of (v, s') \<Rightarrow> (case alloc_entries kvs s' of (es, s'') \<Rightarrow> ((k, v) # es, s'')))"

text \<open>
  \<open>findFirstDirectMatch(json)\<close> in the handler: the traversal of the parsed document. The
  document has fewer arrays and objects than the addresses \<open>alloc\<close> used, which bounds the
  depth.
\<close>

definition findFirstDirectMatch_json :: "json \<Rightarrow> DirectMatch option" where
  "findFirstDirectMatch_json j =
     (case alloc j (Map.empty, 0) of
        (v, h, a) \<Rightarrow> (case findFirstDirectMatch (Suc a) h v of None \<Rightarrow> None | Some r \<Rightarrow> r))"

section \<open>Responses\<close>

text \<open>
  A \<open>Response\<close> the worker builds: the status, the headers it holds, and the body (\<open>None\<close>
  for the \<open>null\<close> body).
\<close>

record response =
  status :: nat
  headers :: "(string \<times> string) list"
  body :: "string option"

text \<open>
  The \<open>Headers\<close> of a \<open>Response\<close> hold each value without its leading and trailing
  whitespace (tab, line feed, carriage return, space). The constructor throws a \<open>TypeError\<close>
  for a value with a character above U+00FF, or with a NUL, a line feed or a carriage return
  left after the stripping. In UTF-8 the characters up to U+00FF are those whose bytes are all
  below \<open>0xC4\<close>.
\<close>

definition is_http_whitespace :: "char \<Rightarrow> bool" where
  "is_http_whitespace c = (c = CHR 0x09 \<or> c = CHR 0x0A \<or> c = CHR 0x0D \<or> c = CHR 0x20)"

definition normalize_header_value :: "string \<Rightarrow> string" where
  "normalize_header_value v =
     rev (dropWhile is_http_whitespace (rev (dropWhile is_http_whitespace v)))"

definition header_value_ok :: "string \<Rightarrow> bool" where
  "header_value_ok v =
     (list_all (\<lambda>c. (of_char c :: nat) < 0xC4) v
      \<and> list_all (\<lambda>c. c \<noteq> CHR 0x00 \<and> c \<noteq> CHR 0x0A \<and> c \<noteq> CHR 0x0D) (normalize_header_value v))"

definition notFoundWithContext :: "string \<Rightarrow> (string \<times> json) list \<Rightarrow> response" where
  "notFoundWithContext message context =
     (let body =
        ''404 Not Found\<newline>\<newline>'' @ message @ ''\<newline>\<newline>''
        @ ''Context:\<newline>''
        @ JSON_stringify (JObj context) @ ''\<newline>''
      in \<lparr>status = 404,
          headers = [(''content-type'', ''text/plain; charset=utf-8'')],
          body = Some body\<rparr>)"

section \<open>Validating the matched URL\<close>

text \<open>
  \<open>isValidAbsoluteUrl(maybeUrl)\<close> is true when \<open>new URL(maybeUrl)\<close> does not throw. The URL
  parser, called without a base URL, first strips leading and trailing control characters and
  spaces and removes every tab and newline. It then needs a scheme: a letter, then letters,
  digits, \<open>+\<close>, \<open>-\<close> or \<open>.\<close>, up to a colon; without one it fails. What follows a scheme that
  is not special and is not introduced by \<open>//\<close> is an opaque path or a path, which the parser
  always accepts. In the other cases the parser goes on to read an authority, and whether it
  accepts the input is decided by its host parser; that decision is the argument
  \<open>host_parses\<close>, applied to the scheme and to the input after the colon.
\<close>

definition is_c0_control_or_space :: "char \<Rightarrow> bool" where
  "is_c0_control_or_space c = ((of_char c :: nat) \<le> 32)"

definition is_tab_or_newline :: "char \<Rightarrow> bool" where
  "is_tab_or_newline c = (c = CHR 0x09 \<or> c = CHR 0x0A \<or> c = CHR 0x0D)"

definition url_input :: "string \<Rightarrow> string" where
  "url_input s =
     filter (\<lambda>c. \<not> is_tab_or_newline c)
       (rev (dropWhile is_c0_control_or_space (rev (dropWhile is_c0_control_or_space s))))"

definition is_ascii_alpha :: "char \<Rightarrow> bool" where
  "is_ascii_alpha c = (c \<in> set ''ABCDEFGHIJKLMNOPQRSTUVWXYZabcdefghijklmnopqrstuvwxyz'')"

definition is_scheme_char :: "char \<Rightarrow> bool" where
  "is_scheme_char c = (is_ascii_alpha c \<or> c \<in> set ''0123456789+-.'')"

definition parse_scheme :: "string \<Rightarrow> (string \<times> string) option" where
  "parse_scheme s =
     (case s of
        [] \<Rightarrow> None
      | c # _ \<Rightarrow>
          if \<not> is_ascii_alpha c then None
          else
            (case dropWhile is_scheme_char s of
               [] \<Rightarrow> None
             | d # remaining \<Rightarrow>
                 if d = CHR '':'' then Some (toLowerCase (takeWhile is_scheme_char s), remaining)
                 else None))"

definition special_schemes :: "string set" where
  "special_schemes = {''ftp'', ''file'', ''http'', ''https'', ''ws'', ''wss''}"

definition isValidAbsoluteUrl :: "(string \<Rightarrow> string \<Rightarrow> bool) \<Rightarrow> string \<Rightarrow> bool" where
  "isValidAbsoluteUrl host_parses maybeUrl =
     (case parse_scheme (url_input maybeUrl) of
        None \<Rightarrow> False
      | Some (scheme, remaining) \<Rightarrow>
          if scheme \<in> special_schemes \<or> startsWith remaining ''//''
          then host_parses scheme remaining
          else True)"

section \<open>The handler\<close>

text \<open>
  The inbound request: its parsed URL, and the method, headers and body that the plain proxy
  path hands on.
\<close>

record request =
  req_url :: URL
  req_method :: string
  req_headers :: "(string \<times> string) list"
  req_body :: "string option"

text \<open>A value that a rejected promise carries: an \<open>Error\<close> with its name and message, or
  any other value, kept as \<open>String(err)\<close>.\<close>

datatype thrown =
    Error string string
  | NonError string

text \<open>\<open>err instanceof Error ? `${err.name}: ${err.message}` : String(err)\<close>.\<close>

definition describe_error :: "thrown \<Rightarrow> string" where
  "describe_error err = (case err of Error name message \<Rightarrow> name @ '': '' @ message | NonError s \<Rightarrow> s)"

text \<open>
  What the worker reads of an upstream \<open>Response\<close>: \<open>status\<close>, \<open>statusText\<close>,
  \<open>headers.get("content-type")\<close>, and the outcome of \<open>json()\<close>, the parsed document or the
  value it throws.
\<close>

record upstream_response =
  up_status :: nat
  up_statusText :: string
  up_content_type :: "string option"
  up_json :: "thrown + json"

text \<open>\<open>upstreamRes.ok\<close>: the status is in the range 200 to 299.\<close>

definition ok :: "upstream_response \<Rightarrow> bool" where
  "ok r = (200 \<le> up_status r \<and> up_status r \<le> 299)"

text \<open>A call of the global \<open>fetch\<close>: the URL as a string, the method, the headers and the
  body.\<close>

record fetch_call =
  fc_url :: string
  fc_method :: string
  fc_headers :: "(string \<times> string) list"
  fc_body :: "string option"

text \<open>
  The platform the worker runs on: what the global \<open>fetch\<close> yields for a call (the value a
  rejected promise carries, or the response), the URL parser's decision on an authority, and
  the message of the \<open>TypeError\<close> that \<open>Headers\<close> throws for a value.
\<close>

record platform =
  global_fetch :: "fetch_call \<Rightarrow> thrown + upstream_response"
  host_parses :: "string \<Rightarrow> string \<Rightarrow> bool"
  type_error_message :: "string \<Rightarrow> string"

text \<open>
  How the handler ends: with a \<open>Response\<close> of its own, with the upstream response handed
  back as it is, or with an exception thrown to its caller.
\<close>

datatype outcome =
    Returns response
  | ReturnsUpstream upstream_response
  | Throws thrown

text \<open>
  \<open>new Response(null, {status, headers})\<close>: the response with the stripped header values,
  or the \<open>TypeError\<close> for the first value that \<open>Headers\<close> refuses.
\<close>

definition new_Response :: "platform \<Rightarrow> nat \<Rightarrow> (string \<times> string) list \<Rightarrow> thrown + response" where
  "new_Response pf code init =
     (case filter (\<lambda>(name, v). \<not> header_value_ok v) init of
        [] \<Rightarrow>
          Inr \<lparr>status = code,
               headers = map (\<lambda>(name, v). (name, normalize_header_value v)) init,
               body = None\<rparr>
      | (name, v) # _ \<Rightarrow> Inl (Error ''TypeError'' (type_error_message pf v)))"

definition nullable :: "string option \<Rightarrow> json" where
  "nullable x = (case x of None \<Rightarrow> JNull | Some s \<Rightarrow> JStr s)"

definition match_json :: "DirectMatch \<Rightarrow> json" where
  "match_json m = JObj [(''url'', JStr (url m)), (''fileType'', JStr (fileType m)), (''jsonPath'', JStr (jsonPath m))]"

text \<open>
  \<open>fetch(request, env)\<close>, the handler: the calls of the global \<open>fetch\<close> it makes, in order,
  and how it ends.
\<close>

definition fetch :: "platform \<Rightarrow> request \<Rightarrow> fetch_call list \<times> outcome" where
  "fetch pf request =
     (let inbound = req_url request in
      case buildUpstreamMetadataUrl inbound of
        None \<Rightarrow>
          ([], Returns (notFoundWithContext
             ''Request path did not contain a /metadata/ segment, so it could not be proxied.''
             [(''requestUrl'', JStr (href inbound)),
              (''pathname'', JStr (pathname inbound)),
              (''expected'', JStr ''A path containing '/metadata/' (e.g. /java/metadata/ga/... or /metadata/ga/...)'')]))
      | Some upstreamUrl \<Rightarrow>
          if \<not> isDirectJsonRequest inbound then
            (let call = \<lparr>fc_url = href upstreamUrl, fc_method = req_method request,
                         fc_headers = req_headers request, fc_body = req_body request\<rparr>
             in ([call],
                 case global_fetch pf call of Inl err \<Rightarrow> Throws err | Inr res \<Rightarrow> ReturnsUpstream res))
          else
            (let upstreamUrl = searchParams_delete upstreamUrl ''direct'';
                 call = \<lparr>fc_url = href upstreamUrl, fc_method = ''GET'',
                         fc_headers = [(''accept'', ''application/json'')], fc_body = None\<rparr>
             in ([call],
                 case global_fetch pf call of
                   Inl err \<Rightarrow>
                     Returns (notFoundWithContext ''Upstream fetch failed.''
                       [(''requestUrl'', JStr (href inbound)),
                        (''upstreamUrl'', JStr (href upstreamUrl)),
                        (''error'', JStr (describe_error err))])
                 | Inr upstreamRes \<Rightarrow>
                     if \<not> ok upstreamRes then
                       Returns (notFoundWithContext ''Upstream returned non-OK status for JSON metadata.''
                         [(''requestUrl'', JStr (href inbound)),
                          (''upstreamUrl'', JStr (href upstreamUrl)),
                          (''upstreamStatus'', JNum (show_nat (up_status upstreamRes))),
                          (''upstreamStatusText'', JStr (up_statusText upstreamRes)),
                          (''upstreamContentType'', nullable (up_content_type upstreamRes))])
                     else
                       (case up_json upstreamRes of
                          Inl err \<Rightarrow>
                            Returns (notFoundWithContext ''Upstream response was not valid JSON.''
                              [(''requestUrl'', JStr (href inbound)),
                               (''upstreamUrl'', JStr (href upstreamUrl)),
                               (''upstreamContentType'', nullable (up_content_type upstreamRes)),
                               (''error'', JStr (describe_error err))])
                        | Inr json \<Rightarrow>
                            (case findFirstDirectMatch_json json of
                               None \<Rightarrow>
                                 Returns (notFoundWithContext
                                   ''No entry found with `file_type` of \"tar.gz\" or \"zip\" and a `url` field.''
                                   [(''requestUrl'', JStr (href inbound)),
                                    (''upstreamUrl'', JStr (href upstreamUrl))])
                             | Some match \<Rightarrow>
                                 if \<not> isValidAbsoluteUrl (host_parses pf) (url match) then
                                   Returns (notFoundWithContext ''Matched entry had an invalid URL.''
                                     [(''requestUrl'', JStr (href inbound)),
                                      (''upstreamUrl'', JStr (href upstreamUrl)),
                                      (''match'', match_json match)])
                                 else
                                   (case new_Response pf 302
                                           [(''location'', url match), (''cache-control'', ''no-store'')] of
                                      Inl err \<Rightarrow> Throws err
                                    | Inr res \<Rightarrow> Returns res))))))"

section \<open>Notions of the specification\<close>

text \<open>
  The first occurrence of \<open>m\<close> in \<open>s\<close>: \<open>s\<close> is \<open>pre\<close>, then \<open>m\<close>, then \<open>rest\<close>, and \<open>m\<close> occurs
  nowhere in \<open>s\<close> at an earlier position.
\<close>

definition first_occurrence :: "string \<Rightarrow> string \<Rightarrow> string \<Rightarrow> string \<Rightarrow> bool" where
  "first_occurrence s m pre rest \<longleftrightarrow>
     s = pre @ m @ rest \<and> (\<forall>p r. s = p @ m @ r \<longrightarrow> length pre \<le> length p)"

text \<open>
  The nodes of a document with their paths, in pre-order: a node stands before its members,
  the members of an array in index order and those of an object in the order of its entries.
  A path is dotted and bracketed, as in \<open>a.b[2].c\<close>.
\<close>

fun preorder :: "json \<Rightarrow> string \<Rightarrow> (string \<times> json) list"
  and preorder_items :: "json list \<Rightarrow> nat \<Rightarrow> string \<Rightarrow> (string \<times> json) list"
  and preorder_entries :: "(string \<times> json) list \<Rightarrow> string \<Rightarrow> (string \<times> json) list" where
  "preorder (JArr xs) path = (path, JArr xs) # preorder_items xs 0 path"
| "preorder (JObj kvs) path = (path, JObj kvs) # preorder_entries kvs path"
| "preorder JNull path = [(path, JNull)]"
| "preorder (JBool b) path = [(path, JBool b)]"
| "preorder (JNum n) path = [(path, JNum n)]"
| "preorder (JStr s) path = [(path, JStr s)]"
| "preorder_items [] i path = []"
| "preorder_items (x # xs) i path =
     preorder x (path @ ''['' @ show_nat i @ '']'') @ preorder_items xs (Suc i) path"
| "preorder_entries [] path = []"
| "preorder_entries ((k, v) # kvs) path =
     preorder v (if path = [] then k else path @ ''.'' @ k) @ preorder_entries kvs path"

text \<open>The string that an object holds under a key, if it holds one.\<close>

definition string_field :: "(string \<times> json) list \<Rightarrow> string \<Rightarrow> string option" where
  "string_field kvs key = (case map_of kvs key of Some (JStr s) \<Rightarrow> Some s | _ \<Rightarrow> None)"

text \<open>
  The match that a node with its path is: an object with a string \<open>file_type\<close> equal to
  \<open>tar.gz\<close> or \<open>zip\<close> in any letter case and a string \<open>url\<close> that \<open>url_ok\<close> admits. Its
  \<open>fileType\<close> is in lower case and its \<open>jsonPath\<close> is the path of the node.
\<close>

definition match_at :: "(string \<Rightarrow> bool) \<Rightarrow> string \<times> json \<Rightarrow> DirectMatch option" where
  "match_at url_ok node =
     (case snd node of
        JObj kvs \<Rightarrow>
          (case string_field kvs ''file_type'' of
             None \<Rightarrow> None
           | Some ft \<Rightarrow>
               (case string_field kvs ''url'' of
                  None \<Rightarrow> None
                | Some u \<Rightarrow>
                    if (toLowerCase ft = ''tar.gz'' \<or> toLowerCase ft = ''zip'') \<and> url_ok u
                    then Some \<lparr>url = u, fileType = toLowerCase ft, jsonPath = fst node\<rparr>
                    else None))
      | _ \<Rightarrow> None)"

fun first_some :: "('a \<Rightarrow> 'b option) \<Rightarrow> 'a list \<Rightarrow> 'b option" where
  "first_some f [] = None"
| "first_some f (x # xs) = (case f x of None \<Rightarrow> first_some f xs | Some y \<Rightarrow> Some y)"

text \<open>The first match of a document in pre-order.\<close>

definition first_match :: "(string \<Rightarrow> bool) \<Rightarrow> json \<Rightarrow> DirectMatch option" where
  "first_match url_ok doc = first_some (match_at url_ok) (preorder doc [])"

text \<open>
  Three notions for the traversal of a stored document. The heap \<open>H\<close> holds what \<open>h\<close> stores
  at the addresses from \<open>a\<close> up to \<open>a'\<close>; none of these addresses is in \<open>seen\<close>; and a walk
  returns \<open>r\<close> after adding to \<open>seen\<close> only addresses among these.
\<close>

definition holds_range :: "heap \<Rightarrow> heap \<Rightarrow> addr \<Rightarrow> addr \<Rightarrow> bool" where
  "holds_range H h a a' \<longleftrightarrow> (\<forall>y. a \<le> y \<and> y < a' \<longrightarrow> H y = h y)"

definition fresh_range :: "addr set \<Rightarrow> addr \<Rightarrow> addr \<Rightarrow> bool" where
  "fresh_range seen a a' \<longleftrightarrow> (\<forall>y \<in> seen. y < a \<or> a' \<le> y)"

definition visits :: "walk_result \<Rightarrow> addr set \<Rightarrow> addr \<Rightarrow> addr \<Rightarrow> DirectMatch option \<Rightarrow> bool" where
  "visits res seen a a' r \<longleftrightarrow>
     (\<exists>seen'. res = Some (seen', r) \<and> seen \<subseteq> seen' \<and> (\<forall>y \<in> seen'. y \<in> seen \<or> (a \<le> y \<and> y < a')))"

text \<open>
  The plain proxy path: the original request (method, headers, body) goes to the upstream
  URL, and what the upstream yields is handed back as it is.
\<close>

definition plain_proxy :: "platform \<Rightarrow> request \<Rightarrow> URL \<Rightarrow> fetch_call list \<times> outcome" where
  "plain_proxy pf request up =
     (let call = \<lparr>fc_url = href up, fc_method = req_method request,
                  fc_headers = req_headers request, fc_body = req_body request\<rparr>
      in ([call], case global_fetch pf call of Inl err \<Rightarrow> Throws err | Inr res \<Rightarrow> ReturnsUpstream res))"

text \<open>
  The direct-resolution path starts with one upstream call: a \<open>GET\<close> of the given URL that
  accepts JSON.
\<close>

definition json_get :: "URL \<Rightarrow> fetch_call" where
  "json_get u =
     \<lparr>fc_url = href u, fc_method = ''GET'',
      fc_headers = [(''accept'', ''application/json'')], fc_body = None\<rparr>"


definition direct_fetch :: "platform \<Rightarrow> request \<Rightarrow> (thrown + upstream_response) option" where
  "direct_fetch pf request =
     (case buildUpstreamMetadataUrl (req_url request) of
        None \<Rightarrow> None
      | Some up \<Rightarrow>
          if isDirectJsonRequest (req_url request)
          then Some (global_fetch pf (json_get (searchParams_delete up ''direct'')))
          else None)"


text \<open>
  A direct-resolution request whose traversal yields the match \<open>m\<close>: the JSON fetch returns a
  success status and a document in which \<open>m\<close> is found.
\<close>

definition yields_match :: "platform \<Rightarrow> request \<Rightarrow> DirectMatch \<Rightarrow> bool" where
  "yields_match pf request m \<longleftrightarrow>
     (\<exists>res doc. direct_fetch pf request = Some (Inr res)
        \<and> 200 \<le> up_status res \<and> up_status res \<le> 299 \<and> up_json res = Inr doc
        \<and> findFirstDirectMatch_json doc = Some m)"

text \<open>
  A string has a scheme when, once stripped as the URL parser strips it, it starts with a
  letter followed by letters, digits, \<open>+\<close>, \<open>-\<close> or \<open>.\<close>, and then a colon. It names an
  authority when its scheme is special or the colon is followed by \<open>//\<close>.
\<close>

definition has_scheme :: "string \<Rightarrow> bool" where
  "has_scheme s \<longleftrightarrow>
     (\<exists>sch rest. url_input s = sch @ CHR '':'' # rest \<and> sch \<noteq> [] \<and> is_ascii_alpha (hd sch)
        \<and> (\<forall>c \<in> set sch. is_scheme_char c))"

definition has_authority :: "string \<Rightarrow> bool" where
  "has_authority s \<longleftrightarrow>
     (\<exists>sch rest. url_input s = sch @ CHR '':'' # rest \<and> (\<forall>c \<in> set sch. is_scheme_char c)
        \<and> (toLowerCase sch \<in> special_schemes \<or> startsWith rest ''//''))"

section \<open>Example inputs\<close>

text \<open>
  A URL of the worker, a \<open>GET\<close> request for it, a platform whose global \<open>fetch\<close> yields the
  same outcome for every call and whose \<open>TypeError\<close> has a fixed message, and an upstream
  response that carries a JSON document.
\<close>

definition worker_url :: "string \<Rightarrow> string option \<Rightarrow> URL" where
  "worker_url path q =
     \<lparr>protocol = ''https:'', host = ''worker.example'', pathname = path, query = q, fragment = None\<rparr>"

definition get_request :: "URL \<Rightarrow> request" where
  "get_request u = \<lparr>req_url = u, req_method = ''GET'', req_headers = [], req_body = None\<rparr>"

definition serving :: "thrown + upstream_response \<Rightarrow> (string \<Rightarrow> string \<Rightarrow> bool) \<Rightarrow> platform" where
  "serving result hp =
     \<lparr>global_fetch = (\<lambda>call. result), host_parses = hp,
      type_error_message = (\<lambda>v. ''Invalid header value.'')\<rparr>"

definition json_response :: "nat \<Rightarrow> json \<Rightarrow> upstream_response" where
  "json_response code doc =
     \<lparr>up_status = code, up_statusText = [], up_content_type = Some ''application/json'',
      up_json = Inr doc\<rparr>"

text \<open>The upstream URL of the worker's path \<open>/java/metadata/ga/linux/x86_64/foo.json\<close>.\<close>

definition foo_upstream :: "string option \<Rightarrow> URL" where
  "foo_upstream q =
     \<lparr>protocol = ''https:'', host = ''jbangdev.github.io'',
      pathname = ''/jdkdb-data/metadata/ga/linux/x86_64/foo.json'', query = q, fragment = None\<rparr>"


text \<open>
  Three documents: one whose second array member is the first match; one without a match (a
  wrong type, a \<open>url\<close> that is not a string, an object without \<open>file_type\<close>, one without
  \<open>url\<close>); and one whose first object with both fields has the empty string as \<open>url\<close>.
\<close>

definition traversal_example :: json where
  "traversal_example =
     JObj [(''a'', JArr [JObj [(''file_type'', JStr ''exe''), (''url'', JStr ''x'')],
                        JObj [(''file_type'', JStr ''TAR.GZ''), (''url'', JStr ''http://h/f.tar.gz'')]])]"

definition no_match_example :: json where
  "no_match_example =
     JObj [(''a'', JArr [JObj [(''file_type'', JStr ''exe''), (''url'', JStr ''x'')],
                        JObj [(''file_type'', JStr ''zip''), (''url'', JNum ''5'')],
                        JObj [(''url'', JStr ''http://h/f.zip'')]]),
           (''file_type'', JStr ''zip'')]"

definition empty_url_example :: json where
  "empty_url_example =
     JObj [(''a'', JObj [(''file_type'', JStr ''zip''), (''url'', JStr [])]),
           (''b'', JObj [(''file_type'', JStr ''zip''), (''url'', JStr ''https://h/f.zip'')])]"

section \<open>Properties\<close>

subsection \<open>The UTF-8 decoder\<close>

lemma utf8_run_Clean:
  "utf8_run (c # rest) Clean =
     (if (of_char c :: nat) < 0x80 then c # utf8_run rest Clean
      else if bytes_needed c = 0 then replacement @ utf8_run rest Clean
      else utf8_run rest (Pending [c] (bytes_needed c) (second_lower c) (second_upper c)))"
  by simp


declare utf8_run.simps(2) [simp del]



lemma utf8_ascii:
  "list_all (\<lambda>c. (of_char c :: nat) < 0x80) s \<Longrightarrow> utf8_run (s @ r) Clean = s @ utf8_run r Clean"
  by (induction s) (simp_all add: utf8_run_Clean)

text \<open>Text of ASCII characters is decoded to itself.\<close>

lemma utf8_decode_ascii: "list_all (\<lambda>c. (of_char c :: nat) < 0x80) s \<Longrightarrow> utf8_decode s = s"
  using utf8_ascii [of s "[]"] by (simp add: utf8_decode_def)






subsection \<open>The upstream URL\<close>

lemma startsWith_iff: "startsWith s m \<longleftrightarrow> (\<exists>r. s = m @ r)"
  unfolding startsWith_def
  by (metis append_eq_conv_conj append_take_drop_id)

lemma indexOf_le: "s = p @ m @ r \<Longrightarrow> 0 \<le> indexOf s m \<and> indexOf s m \<le> int (length p)"
proof (induction s arbitrary: p)
  case Nil
  then show ?case by simp
next
  case (Cons c t)
  show ?case
  proof (cases "startsWith (c # t) m")
    case True
    then show ?thesis by simp
  next
    case False
    with Cons.prems have "p \<noteq> []" by (auto simp: startsWith_iff)
    then obtain p' where p: "p = c # p'" and t: "t = p' @ m @ r"
      using Cons.prems by (cases p) auto
    from Cons.IH [OF t] False show ?thesis by (simp add: p Let_def)
  qed
qed

lemma indexOf_occurs:
  "0 \<le> indexOf s m \<Longrightarrow> \<exists>p r. s = p @ m @ r \<and> int (length p) = indexOf s m"
proof (induction s)
  case Nil
  then show ?case by (auto split: if_splits)
next
  case (Cons c t)
  show ?case
  proof (cases "startsWith (c # t) m")
    case True
    then obtain r where "c # t = [] @ m @ r" by (auto simp: startsWith_iff)
    with True show ?thesis by (metis indexOf.simps(2) list.size(3) of_nat_0)
  next
    case False
    with Cons.prems have nn: "0 \<le> indexOf t m" by (simp add: Let_def split: if_splits)
    from Cons.IH [OF nn] obtain p r where "t = p @ m @ r" "int (length p) = indexOf t m" by blast
    then have "c # t = (c # p) @ m @ r \<and> int (length (c # p)) = indexOf (c # t) m"
      using False nn by (simp add: Let_def)
    then show ?thesis by blast
  qed
qed

lemma indexOf_ge: "- 1 \<le> indexOf s m"
  by (induction s) (auto simp: Let_def)

lemma indexOf_absent: "indexOf s m = - 1 \<longleftrightarrow> \<not> (\<exists>p r. s = p @ m @ r)"
proof
  assume "indexOf s m = - 1"
  then show "\<not> (\<exists>p r. s = p @ m @ r)" using indexOf_le [of s _ m] by fastforce
next
  assume "\<not> (\<exists>p r. s = p @ m @ r)"
  then have "\<not> 0 \<le> indexOf s m" using indexOf_occurs [of s m] by blast
  with indexOf_ge [of s m] show "indexOf s m = - 1" by linarith
qed

lemma first_occurrence_indexOf:
  "first_occurrence s m pre rest \<longleftrightarrow> s = pre @ m @ rest \<and> indexOf s m = int (length pre)"
proof
  assume fo: "first_occurrence s m pre rest"
  then have s: "s = pre @ m @ rest" by (simp add: first_occurrence_def)
  from indexOf_le [OF s] have le: "0 \<le> indexOf s m" "indexOf s m \<le> int (length pre)" by simp_all
  from indexOf_occurs [OF le(1)] obtain p r where "s = p @ m @ r" "int (length p) = indexOf s m"
    by blast
  with fo have "int (length pre) \<le> indexOf s m" by (auto simp: first_occurrence_def)
  with le s show "s = pre @ m @ rest \<and> indexOf s m = int (length pre)" by simp
next
  assume a: "s = pre @ m @ rest \<and> indexOf s m = int (length pre)"
  then show "first_occurrence s m pre rest"
    unfolding first_occurrence_def using indexOf_le [of s _ m] by fastforce
qed

lemma occurrence_has_first:
  assumes "s = p @ m @ r"
  shows "\<exists>pre rest. first_occurrence s m pre rest"
proof -
  from indexOf_le [OF assms] have "0 \<le> indexOf s m" by simp
  from indexOf_occurs [OF this] show ?thesis by (metis first_occurrence_indexOf)
qed

lemma search_set_search: "search (set_search u (search v)) = search v"
  by (simp add: search_def set_search_def split: option.splits)

lemma hash_set_hash: "hash (set_hash u (hash v)) = hash v"
  by (simp add: hash_def set_hash_def split: option.splits)

lemma search_set_hash: "search (set_hash u x) = search u"
  by (simp add: search_def set_hash_def)

lemma buildUpstreamMetadataUrl_Some:
  assumes "first_occurrence (pathname inbound) marker pre rest"
  shows "buildUpstreamMetadataUrl inbound =
           Some (set_hash (set_search (set_pathname new_URL_UPSTREAM_HOST (UPSTREAM_METADATA_PREFIX @ rest))
                   (search inbound)) (hash inbound))"
proof -
  from assms have si: "pathname inbound = pre @ marker @ rest
      \<and> indexOf (pathname inbound) marker = int (length pre)"
    using first_occurrence_indexOf by blast
  then have s: "pathname inbound = pre @ marker @ rest"
    and i: "indexOf (pathname inbound) marker = int (length pre)"
    by blast+
  have "slice (pathname inbound) (int (length pre) + int (length marker)) = rest"
    by (simp add: slice_def s nat_add_distrib)
  then show ?thesis by (simp add: buildUpstreamMetadataUrl_def i Let_def)
qed

text \<open>
  Claim C2. When the path of the inbound URL contains \<open>/metadata/\<close>, the upstream URL exists:
  its scheme and host are \<open>https://jbangdev.github.io\<close> whatever the inbound scheme and host
  are, its path is \<open>/jdkdb-data/metadata/\<close> followed by everything after the end of the first
  occurrence of \<open>/metadata/\<close> in the inbound path, and its query string and fragment are those
  of the inbound URL. A path that contains the marker has a first occurrence of it, and that
  one alone fixes the rest. When the marker is absent the result is \<open>null\<close>.
\<close>

theorem buildUpstreamMetadataUrl_spec:
  "(first_occurrence (pathname inbound) ''/metadata/'' pre rest \<longrightarrow>
      (\<exists>up. buildUpstreamMetadataUrl inbound = Some up
         \<and> protocol up @ ''//'' @ host up = ''https://jbangdev.github.io''
         \<and> pathname up = ''/jdkdb-data/metadata/'' @ rest
         \<and> search up = search inbound \<and> hash up = hash inbound))
   \<and> ((\<exists>p r. pathname inbound = p @ ''/metadata/'' @ r) \<longrightarrow>
        (\<exists>pre rest. first_occurrence (pathname inbound) ''/metadata/'' pre rest))
   \<and> (\<not> (\<exists>p r. pathname inbound = p @ ''/metadata/'' @ r) \<longrightarrow>
        buildUpstreamMetadataUrl inbound = None)"
proof (intro conjI impI)
  assume "first_occurrence (pathname inbound) ''/metadata/'' pre rest"
  then have "first_occurrence (pathname inbound) marker pre rest" by (simp add: marker_def)
  from buildUpstreamMetadataUrl_Some [OF this]
  show "\<exists>up. buildUpstreamMetadataUrl inbound = Some up
         \<and> protocol up @ ''//'' @ host up = ''https://jbangdev.github.io''
         \<and> pathname up = ''/jdkdb-data/metadata/'' @ rest
         \<and> search up = search inbound \<and> hash up = hash inbound"
    by (simp add: search_set_search hash_set_hash search_set_hash)
       (simp add: set_hash_def set_search_def set_pathname_def new_URL_UPSTREAM_HOST_def
          UPSTREAM_METADATA_PREFIX_def)
next
  assume "\<exists>p r. pathname inbound = p @ ''/metadata/'' @ r"
  then show "\<exists>pre rest. first_occurrence (pathname inbound) ''/metadata/'' pre rest"
    using occurrence_has_first by blast
next
  assume "\<not> (\<exists>p r. pathname inbound = p @ ''/metadata/'' @ r)"
  then have "indexOf (pathname inbound) marker = - 1"
    by (simp add: indexOf_absent marker_def)
  then show "buildUpstreamMetadataUrl inbound = None"
    by (simp add: buildUpstreamMetadataUrl_def)
qed

text \<open>
  The theorem at \<open>/java/metadata/ga/metadata/x.json\<close>, where the marker occurs twice, and at a
  path without the marker.
\<close>

theorem buildUpstreamMetadataUrl_spec_witness:
  "first_occurrence ''/java/metadata/ga/metadata/x.json'' ''/metadata/'' ''/java'' ''ga/metadata/x.json''
   \<and> (\<exists>up. buildUpstreamMetadataUrl
         \<lparr>protocol = ''http:'', host = ''worker.example'',
           pathname = ''/java/metadata/ga/metadata/x.json'',
           query = Some ''direct&os=linux'', fragment = Some ''top''\<rparr> = Some up
        \<and> protocol up @ ''//'' @ host up = ''https://jbangdev.github.io''
        \<and> pathname up = ''/jdkdb-data/metadata/ga/metadata/x.json''
        \<and> search up = ''?direct&os=linux'' \<and> hash up = ''#top'')
   \<and> \<not> (\<exists>p r. ''/java/meta/x.json'' = p @ ''/metadata/'' @ r)
   \<and> buildUpstreamMetadataUrl
         \<lparr>protocol = ''http:'', host = ''worker.example'', pathname = ''/java/meta/x.json'',
           query = None, fragment = None\<rparr> = None"
proof -
  have fo: "first_occurrence ''/java/metadata/ga/metadata/x.json'' ''/metadata/'' ''/java'' ''ga/metadata/x.json''"
    by (simp add: first_occurrence_indexOf startsWith_def)
  have no: "\<not> (\<exists>p r. ''/java/meta/x.json'' = p @ ''/metadata/'' @ r)"
    unfolding indexOf_absent [symmetric] by (simp add: startsWith_def)
  show ?thesis
    using fo no
      buildUpstreamMetadataUrl_spec [of "\<lparr>protocol = ''http:'', host = ''worker.example'',
           pathname = ''/java/metadata/ga/metadata/x.json'',
           query = Some ''direct&os=linux'', fragment = Some ''top''\<rparr>" "''/java''" "''ga/metadata/x.json''"]
      buildUpstreamMetadataUrl_spec [of "\<lparr>protocol = ''http:'', host = ''worker.example'', pathname = ''/java/meta/x.json'',
           query = None, fragment = None\<rparr>"]
    by (simp add: search_def hash_def)
qed

subsection \<open>The classifier\<close>

lemma has_iff: "has params name \<longleftrightarrow> (\<exists>v. (name, v) \<in> set params)"
  by (force simp: has_def)

lemma endsWith_iff: "endsWith s m \<longleftrightarrow> (\<exists>pre. s = pre @ m)"
proof
  assume "endsWith s m"
  then have "s = take (length s - length m) s @ m"
    by (metis append_take_drop_id endsWith_def)
  then show "\<exists>pre. s = pre @ m" ..
next
  assume "\<exists>pre. s = pre @ m"
  then show "endsWith s m" by (auto simp: endsWith_def)
qed

lemma endsWith_toLowerCase:
  "endsWith (toLowerCase s) m \<longleftrightarrow> (\<exists>pre suf. s = pre @ suf \<and> toLowerCase suf = m)"
proof
  assume "endsWith (toLowerCase s) m"
  then obtain p where p: "toLowerCase s = p @ m" by (auto simp: endsWith_iff)
  have "s = take (length p) s @ drop (length p) s" by simp
  moreover from p have "toLowerCase (drop (length p) s) = m"
    by (metis append_eq_conv_conj drop_map toLowerCase_def)
  ultimately show "\<exists>pre suf. s = pre @ suf \<and> toLowerCase suf = m" by blast
next
  assume "\<exists>pre suf. s = pre @ suf \<and> toLowerCase suf = m"
  then show "endsWith (toLowerCase s) m" by (auto simp: endsWith_iff toLowerCase_def)
qed

lemma isDirectJsonRequest_iff:
  "isDirectJsonRequest u \<longleftrightarrow>
     (\<exists>v. (''direct'', v) \<in> set (searchParams u))
     \<and> (\<exists>pre suf. pathname u = pre @ suf \<and> toLowerCase suf = ''.json'')"
  by (simp add: isDirectJsonRequest_def has_iff endsWith_toLowerCase)

lemma fetch_no_marker:
  "buildUpstreamMetadataUrl (req_url request) = None \<Longrightarrow>
   fetch pf request =
     ([], Returns (notFoundWithContext
        ''Request path did not contain a /metadata/ segment, so it could not be proxied.''
        [(''requestUrl'', JStr (href (req_url request))),
         (''pathname'', JStr (pathname (req_url request))),
         (''expected'', JStr ''A path containing '/metadata/' (e.g. /java/metadata/ga/... or /metadata/ga/...)'')]))"
  by (simp add: fetch_def Let_def)

lemma fetch_plain:
  "buildUpstreamMetadataUrl (req_url request) = Some up \<Longrightarrow> \<not> isDirectJsonRequest (req_url request) \<Longrightarrow>
   fetch pf request = plain_proxy pf request up"
  by (simp add: fetch_def plain_proxy_def Let_def)

lemma fetch_direct_calls:
  "buildUpstreamMetadataUrl (req_url request) = Some up \<Longrightarrow> isDirectJsonRequest (req_url request) \<Longrightarrow>
   fst (fetch pf request) = [json_get (searchParams_delete up ''direct'')]"
  by (simp add: fetch_def json_get_def Let_def)

lemma buildUpstreamMetadataUrl_None:
  "buildUpstreamMetadataUrl u = None \<longleftrightarrow> \<not> (\<exists>p r. pathname u = p @ ''/metadata/'' @ r)"
  by (simp add: buildUpstreamMetadataUrl_def indexOf_absent marker_def)

text \<open>
  Claim C3, as amended. A request is a direct-resolution request exactly when its query has a
  parameter named \<open>direct\<close>, whatever its value, and its path ends in \<open>.json\<close> in any
  letter case. The upstream URL exists exactly when the path contains the marker
  \<open>/metadata/\<close>. Among the requests whose path contains the marker, a direct-resolution
  request starts the direct path (the \<open>GET\<close> of the upstream JSON) and every other request
  takes the plain proxy path. Every request whose path lacks the marker, direct-resolution or
  not, makes no upstream call and is answered with the 404 diagnostic of the routing miss.
\<close>

theorem classifier_routing:
  "(isDirectJsonRequest (req_url request) \<longleftrightarrow>
      (\<exists>v. (''direct'', v) \<in> set (searchParams (req_url request)))
      \<and> (\<exists>pre suf. pathname (req_url request) = pre @ suf \<and> toLowerCase suf = ''.json''))
   \<and> (buildUpstreamMetadataUrl (req_url request) = Some up \<longrightarrow>
        (if isDirectJsonRequest (req_url request)
         then fst (fetch pf request) = [json_get (searchParams_delete up ''direct'')]
         else fetch pf request = plain_proxy pf request up))
   \<and> ((\<exists>p r. pathname (req_url request) = p @ ''/metadata/'' @ r) \<longrightarrow>
        (\<exists>u. buildUpstreamMetadataUrl (req_url request) = Some u))
   \<and> (\<not> (\<exists>p r. pathname (req_url request) = p @ ''/metadata/'' @ r) \<longrightarrow>
        buildUpstreamMetadataUrl (req_url request) = None
        \<and> fetch pf request =
            ([], Returns (notFoundWithContext
               ''Request path did not contain a /metadata/ segment, so it could not be proxied.''
               [(''requestUrl'', JStr (href (req_url request))),
                (''pathname'', JStr (pathname (req_url request))),
                (''expected'', JStr ''A path containing '/metadata/' (e.g. /java/metadata/ga/... or /metadata/ga/...)'')]))
        \<and> status (notFoundWithContext
               ''Request path did not contain a /metadata/ segment, so it could not be proxied.''
               [(''requestUrl'', JStr (href (req_url request))),
                (''pathname'', JStr (pathname (req_url request))),
                (''expected'', JStr ''A path containing '/metadata/' (e.g. /java/metadata/ga/... or /metadata/ga/...)'')])
            = 404)"
proof -
  have marker: "(\<exists>p r. pathname (req_url request) = p @ ''/metadata/'' @ r) \<longrightarrow>
      (\<exists>u. buildUpstreamMetadataUrl (req_url request) = Some u)"
    using buildUpstreamMetadataUrl_None [of "req_url request"] by auto
  have miss: "\<not> (\<exists>p r. pathname (req_url request) = p @ ''/metadata/'' @ r) \<longrightarrow>
      buildUpstreamMetadataUrl (req_url request) = None"
    using buildUpstreamMetadataUrl_None [of "req_url request"] by simp
  have st: "status (notFoundWithContext msg ctx) = 404" for msg ctx
    by (simp add: notFoundWithContext_def)
  from marker miss fetch_no_marker [of request pf] st
    isDirectJsonRequest_iff [of "req_url request"] fetch_plain [of request up pf]
    fetch_direct_calls [of request up pf]
  show ?thesis by (simp only: simp_thms if_split) blast
qed


subsection \<open>The branches of the handler\<close>

lemma direct_fetch_Some:
  "direct_fetch pf request = Some x \<longleftrightarrow>
     (\<exists>up. buildUpstreamMetadataUrl (req_url request) = Some up \<and> isDirectJsonRequest (req_url request)
        \<and> global_fetch pf (json_get (searchParams_delete up ''direct'')) = x)"
  by (auto simp: direct_fetch_def split: option.splits)





lemma fetch_direct_invalid:
  assumes "buildUpstreamMetadataUrl (req_url request) = Some up"
    and "isDirectJsonRequest (req_url request)"
    and "global_fetch pf (json_get (searchParams_delete up ''direct'')) = Inr res"
    and "ok res" and "up_json res = Inr doc" and "findFirstDirectMatch_json doc = Some m"
    and "\<not> isValidAbsoluteUrl (host_parses pf) (url m)"
  shows "snd (fetch pf request) =
     Returns (notFoundWithContext ''Matched entry had an invalid URL.''
       [(''requestUrl'', JStr (href (req_url request))),
        (''upstreamUrl'', JStr (href (searchParams_delete up ''direct''))),
        (''match'', JObj [(''url'', JStr (url m)), (''fileType'', JStr (fileType m)),
                          (''jsonPath'', JStr (jsonPath m))])])"
  using assms by (simp add: fetch_def Let_def json_get_def match_json_def)

lemma fetch_direct_redirect:
  assumes "buildUpstreamMetadataUrl (req_url request) = Some up"
    and "isDirectJsonRequest (req_url request)"
    and "global_fetch pf (json_get (searchParams_delete up ''direct'')) = Inr res"
    and "ok res" and "up_json res = Inr doc" and "findFirstDirectMatch_json doc = Some m"
    and "isValidAbsoluteUrl (host_parses pf) (url m)"
  shows "snd (fetch pf request) =
     (case new_Response pf 302 [(''location'', url m), (''cache-control'', ''no-store'')] of
        Inl err \<Rightarrow> Throws err
      | Inr res \<Rightarrow> Returns res)"
  using assms by (simp add: fetch_def Let_def json_get_def)

lemma no_store_header: "header_value_ok ''no-store''" "normalize_header_value ''no-store'' = ''no-store''"
  by (simp_all add: header_value_ok_def normalize_header_value_def is_http_whitespace_def)

lemma new_Response_redirect:
  "new_Response pf 302 [(''location'', v), (''cache-control'', ''no-store'')] =
     (if header_value_ok v
      then Inr \<lparr>status = 302,
                headers = [(''location'', normalize_header_value v), (''cache-control'', ''no-store'')],
                body = None\<rparr>
      else Inl (Error ''TypeError'' (type_error_message pf v)))"
  by (simp add: new_Response_def no_store_header)


lemma status_notFoundWithContext: "status (notFoundWithContext message context) = 404"
  by (simp add: notFoundWithContext_def)



subsection \<open>The handler on the example inputs\<close>

lemmas eval_url = buildUpstreamMetadataUrl_def marker_def startsWith_def slice_def
  new_URL_UPSTREAM_HOST_def set_pathname_def set_search_def set_hash_def search_def hash_def
  UPSTREAM_METADATA_PREFIX_def worker_url_def foo_upstream_def get_request_def

lemmas eval_query = searchParams_def urlencoded_parse_def parse_pair_def plus_to_space_def
  utf8_decode_def utf8_run_Clean
  has_def isDirectJsonRequest_def toLowerCase_def toLowerCase_char_def endsWith_def
  searchParams_delete_def urlencoded_serialize_def urlencoded_string_def urlencoded_byte_def
  urlencoded_keep_def hex_digit_def

lemmas eval_walk = findFirstDirectMatch_json_def findFirstDirectMatch_def fileType_of_def
  url_of_def truthy_def targetTypes_def show_nat.simps digit_char_def toLowerCase_def
  toLowerCase_char_def

lemmas eval_valid = isValidAbsoluteUrl_def parse_scheme_def url_input_def
  is_c0_control_or_space_def is_tab_or_newline_def is_ascii_alpha_def is_scheme_char_def
  special_schemes_def toLowerCase_def toLowerCase_char_def startsWith_def

lemma foo_upstream_url:
  "buildUpstreamMetadataUrl (worker_url ''/java/metadata/ga/linux/x86_64/foo.json'' q) =
     Some (foo_upstream (if q = Some [] then None else q))"
  by (cases q) (simp_all add: eval_url)

lemma foo_is_direct:
  "isDirectJsonRequest (worker_url ''/java/metadata/ga/linux/x86_64/foo.json'' (Some ''direct''))"
  by (simp add: eval_url eval_query)

lemma foo_delete_direct:
  "searchParams_delete (foo_upstream (Some ''direct'')) ''direct'' = foo_upstream None"
  by (simp add: eval_url eval_query)

lemma foo_direct_fetch:
  "direct_fetch (serving result hp)
     (get_request (worker_url ''/java/metadata/ga/linux/x86_64/foo.json'' (Some ''direct'')))
   = Some result"
  using foo_is_direct
  by (simp add: direct_fetch_def foo_upstream_url get_request_def serving_def)

lemma no_marker_in_meta:
  "\<not> (\<exists>p r. ''/java/meta/foo.json'' = p @ ''/metadata/'' @ r)"
  unfolding indexOf_absent [symmetric] by (simp add: startsWith_def)

theorem classifier_routing_witness:
  "buildUpstreamMetadataUrl (worker_url ''/java/metadata/ga/linux/x86_64/foo.json'' (Some ''direct''))
     = Some (foo_upstream (Some ''direct''))
   \<and> isDirectJsonRequest (worker_url ''/java/metadata/ga/linux/x86_64/foo.json'' (Some ''direct''))
   \<and> fst (fetch (serving (Inr (json_response 200 JNull)) (\<lambda>s r. True))
         (get_request (worker_url ''/java/metadata/ga/linux/x86_64/foo.json'' (Some ''direct''))))
       = [json_get (foo_upstream None)]
   \<and> buildUpstreamMetadataUrl (worker_url ''/java/metadata/ga/linux/x86_64/foo.json'' None)
     = Some (foo_upstream None)
   \<and> \<not> isDirectJsonRequest (worker_url ''/java/metadata/ga/linux/x86_64/foo.json'' None)
   \<and> fetch (serving (Inr (json_response 200 JNull)) (\<lambda>s r. True))
         (get_request (worker_url ''/java/metadata/ga/linux/x86_64/foo.json'' None))
       = plain_proxy (serving (Inr (json_response 200 JNull)) (\<lambda>s r. True))
           (get_request (worker_url ''/java/metadata/ga/linux/x86_64/foo.json'' None))
           (foo_upstream None)
   \<and> \<not> (\<exists>p r. ''/java/meta/foo.json'' = p @ ''/metadata/'' @ r)
   \<and> isDirectJsonRequest (worker_url ''/java/meta/foo.json'' (Some ''direct''))
   \<and> fetch (serving (Inr (json_response 200 JNull)) (\<lambda>s r. True))
        (get_request (worker_url ''/java/meta/foo.json'' (Some ''direct'')))
     = ([], Returns (notFoundWithContext
          ''Request path did not contain a /metadata/ segment, so it could not be proxied.''
          [(''requestUrl'', JStr ''https://worker.example/java/meta/foo.json?direct''),
           (''pathname'', JStr ''/java/meta/foo.json''),
           (''expected'', JStr ''A path containing '/metadata/' (e.g. /java/metadata/ga/... or /metadata/ga/...)'')]))"
proof -
  have nd: "\<not> isDirectJsonRequest (worker_url ''/java/metadata/ga/linux/x86_64/foo.json'' None)"
    by (simp add: eval_url eval_query)
  have d: "isDirectJsonRequest (worker_url ''/java/meta/foo.json'' (Some ''direct''))"
    by (simp add: eval_url eval_query)
  have hr: "href (worker_url ''/java/meta/foo.json'' (Some ''direct''))
      = ''https://worker.example/java/meta/foo.json?direct''"
    by (simp add: href_def worker_url_def)
  have miss: "fetch (serving (Inr (json_response 200 JNull)) (\<lambda>s r. True))
        (get_request (worker_url ''/java/meta/foo.json'' (Some ''direct'')))
     = ([], Returns (notFoundWithContext
          ''Request path did not contain a /metadata/ segment, so it could not be proxied.''
          [(''requestUrl'', JStr ''https://worker.example/java/meta/foo.json?direct''),
           (''pathname'', JStr ''/java/meta/foo.json''),
           (''expected'', JStr ''A path containing '/metadata/' (e.g. /java/metadata/ga/... or /metadata/ga/...)'')]))"
    using no_marker_in_meta
      classifier_routing [of "get_request (worker_url ''/java/meta/foo.json'' (Some ''direct''))"
        "foo_upstream None" "serving (Inr (json_response 200 JNull)) (\<lambda>s r. True)"]
    by (simp add: get_request_def hr) (simp add: worker_url_def)
  have hit: "buildUpstreamMetadataUrl (worker_url ''/java/metadata/ga/linux/x86_64/foo.json'' (Some ''direct''))
     = Some (foo_upstream (Some ''direct''))
   \<and> fst (fetch (serving (Inr (json_response 200 JNull)) (\<lambda>s r. True))
         (get_request (worker_url ''/java/metadata/ga/linux/x86_64/foo.json'' (Some ''direct''))))
       = [json_get (foo_upstream None)]
   \<and> buildUpstreamMetadataUrl (worker_url ''/java/metadata/ga/linux/x86_64/foo.json'' None)
     = Some (foo_upstream None)
   \<and> fetch (serving (Inr (json_response 200 JNull)) (\<lambda>s r. True))
         (get_request (worker_url ''/java/metadata/ga/linux/x86_64/foo.json'' None))
       = plain_proxy (serving (Inr (json_response 200 JNull)) (\<lambda>s r. True))
           (get_request (worker_url ''/java/metadata/ga/linux/x86_64/foo.json'' None))
           (foo_upstream None)"
    using nd foo_is_direct
      classifier_routing [of "get_request (worker_url ''/java/metadata/ga/linux/x86_64/foo.json'' (Some ''direct''))"
        "foo_upstream (Some ''direct'')" "serving (Inr (json_response 200 JNull)) (\<lambda>s r. True)"]
      classifier_routing [of "get_request (worker_url ''/java/metadata/ga/linux/x86_64/foo.json'' None)"
        "foo_upstream None" "serving (Inr (json_response 200 JNull)) (\<lambda>s r. True)"]
    by (simp add: foo_upstream_url foo_delete_direct get_request_def)
  from hit miss nd d foo_is_direct no_marker_in_meta show ?thesis by blast
qed

theorem classifier_routing_counterexample:
  "\<not> isDirectJsonRequest (worker_url ''/java/meta/foo.json'' None)
   \<and> fetch (serving (Inr (json_response 200 JNull)) (\<lambda>s r. True))
        (get_request (worker_url ''/java/meta/foo.json'' None))
     = ([], Returns (notFoundWithContext
          ''Request path did not contain a /metadata/ segment, so it could not be proxied.''
          [(''requestUrl'', JStr ''https://worker.example/java/meta/foo.json''),
           (''pathname'', JStr ''/java/meta/foo.json''),
           (''expected'', JStr ''A path containing '/metadata/' (e.g. /java/metadata/ga/... or /metadata/ga/...)'')]))
   \<and> fetch (serving (Inr (json_response 200 JNull)) (\<lambda>s r. True))
        (get_request (worker_url ''/java/meta/foo.json'' None))
     \<noteq> plain_proxy (serving (Inr (json_response 200 JNull)) (\<lambda>s r. True))
         (get_request (worker_url ''/java/meta/foo.json'' None))
         (foo_upstream None)"
proof -
  have nd: "\<not> isDirectJsonRequest (worker_url ''/java/meta/foo.json'' None)"
    by (simp add: eval_url eval_query)
  have nb: "buildUpstreamMetadataUrl (req_url (get_request (worker_url ''/java/meta/foo.json'' None))) = None"
    by (simp add: eval_url)
  show ?thesis
    using nd fetch_no_marker [OF nb]
    by (simp add: plain_proxy_def Let_def) (simp add: get_request_def worker_url_def href_def)
qed


lemmas eval_header = header_value_ok_def normalize_header_value_def is_http_whitespace_def

lemma zip_match:
  "findFirstDirectMatch_json (JObj [(''file_type'', JStr ''zip''), (''url'', JStr u)])
     = (if u = [] then None else Some \<lparr>url = u, fileType = ''zip'', jsonPath = []\<rparr>)"
  by (simp add: eval_walk)

lemma yields_zip_match:
  "u \<noteq> [] \<Longrightarrow>
   yields_match
     (serving (Inr (json_response 200 (JObj [(''file_type'', JStr ''zip''), (''url'', JStr u)]))) hp)
     (get_request (worker_url ''/java/metadata/ga/linux/x86_64/foo.json'' (Some ''direct'')))
     \<lparr>url = u, fileType = ''zip'', jsonPath = []\<rparr>"
  by (simp add: yields_match_def foo_direct_fetch json_response_def zip_match)

text \<open>
  The handler on a direct request, when the upstream document is one \<open>zip\<close> entry whose
  URL passes the validation.
\<close>

lemma fetch_zip_redirect:
  assumes "u \<noteq> []" and "isValidAbsoluteUrl hp u"
  shows "snd (fetch
       (serving (Inr (json_response 200 (JObj [(''file_type'', JStr ''zip''), (''url'', JStr u)]))) hp)
       (get_request (worker_url ''/java/metadata/ga/linux/x86_64/foo.json'' (Some ''direct''))))
     = (if header_value_ok u
        then Returns \<lparr>status = 302,
               headers = [(''location'', normalize_header_value u), (''cache-control'', ''no-store'')],
               body = None\<rparr>
        else Throws (Error ''TypeError'' ''Invalid header value.''))"
  using fetch_direct_redirect [of "get_request (worker_url ''/java/metadata/ga/linux/x86_64/foo.json'' (Some ''direct''))"
      "foo_upstream (Some ''direct'')"
      "serving (Inr (json_response 200 (JObj [(''file_type'', JStr ''zip''), (''url'', JStr u)]))) hp"
      "json_response 200 (JObj [(''file_type'', JStr ''zip''), (''url'', JStr u)])"
      "JObj [(''file_type'', JStr ''zip''), (''url'', JStr u)]"
      "\<lparr>url = u, fileType = ''zip'', jsonPath = []\<rparr>"]
    assms foo_is_direct
  by (simp add: foo_upstream_url get_request_def serving_def json_response_def ok_def zip_match
        new_Response_redirect)



subsection \<open>The name of the parameter\<close>

text \<open>
  Claim C10. The name \<open>direct\<close> is matched exactly. A URL whose path ends in \<open>.json\<close> in any
  letter case, and whose query has a parameter named \<open>direct\<close> in another casing (such as
  \<open>Direct\<close> or \<open>DIRECT\<close>) and none named exactly \<open>direct\<close>, is not a direct-resolution
  request: whenever its upstream URL exists, the handler proxies it.
\<close>

theorem direct_name_is_case_sensitive:
  assumes "\<exists>pre suf. pathname u = pre @ suf \<and> toLowerCase suf = ''.json''"
    and "\<exists>name v. (name, v) \<in> set (searchParams u) \<and> name \<noteq> ''direct''
            \<and> toLowerCase name = ''direct''"
    and "\<not> (\<exists>v. (''direct'', v) \<in> set (searchParams u))"
  shows "\<not> isDirectJsonRequest u
    \<and> (\<forall>pf request up. req_url request = u \<and> buildUpstreamMetadataUrl u = Some up \<longrightarrow>
          fetch pf request = plain_proxy pf request up)"
proof -
  from assms(3) have nd: "\<not> isDirectJsonRequest u" by (simp add: isDirectJsonRequest_iff)
  with fetch_plain show ?thesis by blast
qed

theorem direct_name_is_case_sensitive_witness:
  "(\<exists>pre suf. ''/java/metadata/ga/linux/x86_64/foo.json'' = pre @ suf \<and> toLowerCase suf = ''.json'')
   \<and> searchParams (worker_url ''/java/metadata/ga/linux/x86_64/foo.json'' (Some ''Direct=1&DIRECT''))
       = [(''Direct'', ''1''), (''DIRECT'', [])]
   \<and> toLowerCase ''Direct'' = ''direct'' \<and> toLowerCase ''DIRECT'' = ''direct''
   \<and> \<not> isDirectJsonRequest (worker_url ''/java/metadata/ga/linux/x86_64/foo.json'' (Some ''Direct=1&DIRECT''))
   \<and> fetch (serving (Inr (json_response 200 JNull)) (\<lambda>s r. True))
         (get_request (worker_url ''/java/metadata/ga/linux/x86_64/foo.json'' (Some ''Direct=1&DIRECT'')))
       = plain_proxy (serving (Inr (json_response 200 JNull)) (\<lambda>s r. True))
           (get_request (worker_url ''/java/metadata/ga/linux/x86_64/foo.json'' (Some ''Direct=1&DIRECT'')))
           (foo_upstream (Some ''Direct=1&DIRECT''))"
proof -
  let ?u = "worker_url ''/java/metadata/ga/linux/x86_64/foo.json'' (Some ''Direct=1&DIRECT'')"
  have "endsWith (toLowerCase ''/java/metadata/ga/linux/x86_64/foo.json'') ''.json''"
    by (simp add: eval_query)
  then have a1: "\<exists>pre suf. ''/java/metadata/ga/linux/x86_64/foo.json'' = pre @ suf \<and> toLowerCase suf = ''.json''"
    by (simp only: endsWith_toLowerCase)
  then have a1': "\<exists>pre suf. pathname ?u = pre @ suf \<and> toLowerCase suf = ''.json''"
    by (simp add: worker_url_def)
  have sp: "searchParams ?u = [(''Direct'', ''1''), (''DIRECT'', [])]"
    by (simp add: eval_query worker_url_def)
  have lc: "toLowerCase ''Direct'' = ''direct''" "toLowerCase ''DIRECT'' = ''direct''"
    by (simp_all add: eval_query)
  have a2: "\<exists>name v. (name, v) \<in> set (searchParams ?u) \<and> name \<noteq> ''direct''
            \<and> toLowerCase name = ''direct''"
    unfolding sp using lc(1) by (intro exI [of _ "''Direct''"] exI [of _ "''1''"]) simp
  have a3: "\<not> (\<exists>v. (''direct'', v) \<in> set (searchParams ?u))"
    unfolding sp by simp
  from direct_name_is_case_sensitive [OF a1' a2 a3] a1 sp lc show ?thesis
    by (simp add: foo_upstream_url get_request_def)
qed

subsection \<open>The body of the diagnostic\<close>

lemma stringify_entries_map:
  "stringify_entries ind kvs = map (\<lambda>(k, v). ind @ quote k @ '': '' @ stringify ind v) kvs"
  by (induction kvs) auto

text \<open>
  Claim C7. For every message and context, \<open>notFoundWithContext\<close> yields status 404, the
  content type \<open>text/plain; charset=utf-8\<close>, and a body made of the line \<open>404 Not Found\<close>, an
  empty line, the message, an empty line, the line \<open>Context:\<close>, the context as JSON and a
  final newline. The JSON has one entry per line, indented by two spaces.
\<close>

theorem notFoundWithContext_format:
  "status (notFoundWithContext message context) = 404
   \<and> headers (notFoundWithContext message context) = [(''content-type'', ''text/plain; charset=utf-8'')]
   \<and> body (notFoundWithContext message context) =
       Some (''404 Not Found'' @ ''\<newline>'' @ ''\<newline>'' @ message @ ''\<newline>'' @ ''\<newline>''
             @ ''Context:'' @ ''\<newline>'' @ JSON_stringify (JObj context) @ ''\<newline>'')
   \<and> JSON_stringify (JObj context) =
       (if context = [] then ''{}''
        else ''{'' @ ''\<newline>''
             @ join_with ('','' @ ''\<newline>'')
                 (map (\<lambda>(k, v). ''  '' @ quote k @ '': '' @ stringify ''  '' v) context)
             @ ''\<newline>'' @ ''}'')"
  by (simp add: notFoundWithContext_def JSON_stringify_def stringify_entries_map newline_def)

lemmas eval_stringify = notFoundWithContext_def JSON_stringify_def quote_def escape_char_def
  newline_def show_nat.simps digit_char_def backslash_def lower_hex_digit_def
  nullable_def

text \<open>The body for a context with a string, a number, \<open>null\<close> and a nested object.\<close>

theorem notFoundWithContext_format_witness:
  "body (notFoundWithContext ''Upstream returned non-OK status for JSON metadata.''
      [(''requestUrl'', JStr ''https://worker.example/a.json?direct''),
       (''upstreamStatus'', JNum ''500''),
       (''upstreamContentType'', JNull),
       (''match'', JObj [(''url'', JStr ''x''), (''jsonPath'', JStr ''a[1]'')])])
   = Some (''404 Not Found\<newline>\<newline>Upstream returned non-OK status for JSON metadata.\<newline>\<newline>Context:\<newline>''
      @ ''{\<newline>''
      @ ''  '' @ [CHR 0x22] @ ''requestUrl'' @ [CHR 0x22] @ '': '' @ [CHR 0x22] @ ''https://worker.example/a.json?direct'' @ [CHR 0x22] @ '',\<newline>''
      @ ''  '' @ [CHR 0x22] @ ''upstreamStatus'' @ [CHR 0x22] @ '': 500,\<newline>''
      @ ''  '' @ [CHR 0x22] @ ''upstreamContentType'' @ [CHR 0x22] @ '': null,\<newline>''
      @ ''  '' @ [CHR 0x22] @ ''match'' @ [CHR 0x22] @ '': {\<newline>''
      @ ''    '' @ [CHR 0x22] @ ''url'' @ [CHR 0x22] @ '': '' @ [CHR 0x22] @ ''x'' @ [CHR 0x22] @ '',\<newline>''
      @ ''    '' @ [CHR 0x22] @ ''jsonPath'' @ [CHR 0x22] @ '': '' @ [CHR 0x22] @ ''a[1]'' @ [CHR 0x22] @ ''\<newline>''
      @ ''  }\<newline>''
      @ ''}\<newline>'')"
  using notFoundWithContext_format [of "''Upstream returned non-OK status for JSON metadata.''"
      "[(''requestUrl'', JStr ''https://worker.example/a.json?direct''),
       (''upstreamStatus'', JNum ''500''),
       (''upstreamContentType'', JNull),
       (''match'', JObj [(''url'', JStr ''x''), (''jsonPath'', JStr ''a[1]'')])]"]
  by (simp add: eval_stringify)

subsection \<open>Validation of the matched URL\<close>

lemma colon_not_scheme_char: "\<not> is_scheme_char CHR '':''"
  by (simp add: is_scheme_char_def is_ascii_alpha_def)

lemma split_at_colon:
  assumes "t = sch @ CHR '':'' # rest" and "\<forall>c \<in> set sch. is_scheme_char c"
  shows "takeWhile is_scheme_char t = sch" and "dropWhile is_scheme_char t = CHR '':'' # rest"
  using assms colon_not_scheme_char
  by (simp_all add: takeWhile_append2 takeWhile_tail dropWhile_append2 dropWhile_append3)

lemma parse_scheme_Some:
  "parse_scheme t = Some (s, rest) \<longleftrightarrow>
     (\<exists>sch. t = sch @ CHR '':'' # rest \<and> sch \<noteq> [] \<and> is_ascii_alpha (hd sch)
        \<and> (\<forall>c \<in> set sch. is_scheme_char c) \<and> s = toLowerCase sch)"
proof
  assume ps: "parse_scheme t = Some (s, rest)"
  then obtain c t' where t: "t = c # t'" and al: "is_ascii_alpha c"
    by (cases t) (auto simp: parse_scheme_def split: if_splits)
  from ps t al have dw: "dropWhile is_scheme_char t = CHR '':'' # rest"
    and s: "s = toLowerCase (takeWhile is_scheme_char t)"
    by (auto simp: parse_scheme_def split: list.splits if_splits)
  let ?sch = "takeWhile is_scheme_char t"
  have "t = ?sch @ CHR '':'' # rest" using dw by (metis takeWhile_dropWhile_id)
  moreover have "?sch \<noteq> []" "hd ?sch = c" using t al by (simp_all add: is_scheme_char_def)
  moreover have "\<forall>c \<in> set ?sch. is_scheme_char c" by (auto dest: set_takeWhileD)
  ultimately show "\<exists>sch. t = sch @ CHR '':'' # rest \<and> sch \<noteq> [] \<and> is_ascii_alpha (hd sch)
        \<and> (\<forall>c \<in> set sch. is_scheme_char c) \<and> s = toLowerCase sch"
    using al s by metis
next
  assume "\<exists>sch. t = sch @ CHR '':'' # rest \<and> sch \<noteq> [] \<and> is_ascii_alpha (hd sch)
        \<and> (\<forall>c \<in> set sch. is_scheme_char c) \<and> s = toLowerCase sch"
  then obtain sch where t: "t = sch @ CHR '':'' # rest" and ne: "sch \<noteq> []"
    and al: "is_ascii_alpha (hd sch)" and sc: "\<forall>c \<in> set sch. is_scheme_char c"
    and s: "s = toLowerCase sch" by blast
  from ne obtain c sch' where sch: "sch = c # sch'" by (cases sch) auto
  from split_at_colon [OF t sc] t sch al s show "parse_scheme t = Some (s, rest)"
    by (simp add: parse_scheme_def)
qed

lemma has_scheme_iff: "has_scheme s \<longleftrightarrow> parse_scheme (url_input s) \<noteq> None"
proof
  assume "has_scheme s"
  then obtain sch rest where "url_input s = sch @ CHR '':'' # rest \<and> sch \<noteq> [] \<and> is_ascii_alpha (hd sch)
        \<and> (\<forall>c \<in> set sch. is_scheme_char c)" by (auto simp: has_scheme_def)
  then have "parse_scheme (url_input s) = Some (toLowerCase sch, rest)"
    unfolding parse_scheme_Some by blast
  then show "parse_scheme (url_input s) \<noteq> None" by simp
next
  assume "parse_scheme (url_input s) \<noteq> None"
  then obtain sl rest where "parse_scheme (url_input s) = Some (sl, rest)" by auto
  then show "has_scheme s" unfolding parse_scheme_Some has_scheme_def by blast
qed

lemma has_authority_iff:
  "has_authority s \<longleftrightarrow>
     (case dropWhile is_scheme_char (url_input s) of
        [] \<Rightarrow> False
      | d # rest \<Rightarrow> d = CHR '':''
          \<and> (toLowerCase (takeWhile is_scheme_char (url_input s)) \<in> special_schemes
               \<or> startsWith rest ''//''))"
proof
  assume "has_authority s"
  then obtain sch rest where t: "url_input s = sch @ CHR '':'' # rest"
    and sc: "\<forall>c \<in> set sch. is_scheme_char c"
    and au: "toLowerCase sch \<in> special_schemes \<or> startsWith rest ''//''"
    by (auto simp: has_authority_def)
  from split_at_colon [OF t sc] au
  show "case dropWhile is_scheme_char (url_input s) of
        [] \<Rightarrow> False
      | d # rest \<Rightarrow> d = CHR '':''
          \<and> (toLowerCase (takeWhile is_scheme_char (url_input s)) \<in> special_schemes
               \<or> startsWith rest ''//'')" by simp
next
  assume a: "case dropWhile is_scheme_char (url_input s) of
        [] \<Rightarrow> False
      | d # rest \<Rightarrow> d = CHR '':''
          \<and> (toLowerCase (takeWhile is_scheme_char (url_input s)) \<in> special_schemes
               \<or> startsWith rest ''//'')"
  let ?t = "url_input s"
  from a obtain rest where dw: "dropWhile is_scheme_char ?t = CHR '':'' # rest"
    and au: "toLowerCase (takeWhile is_scheme_char ?t) \<in> special_schemes \<or> startsWith rest ''//''"
    by (auto split: list.splits)
  have "?t = takeWhile is_scheme_char ?t @ CHR '':'' # rest" using dw by (metis takeWhile_dropWhile_id)
  moreover have "\<forall>c \<in> set (takeWhile is_scheme_char ?t). is_scheme_char c" by (auto dest: set_takeWhileD)
  ultimately show "has_authority s" unfolding has_authority_def using au by blast
qed

lemma valid_has_scheme: "isValidAbsoluteUrl hp s \<Longrightarrow> has_scheme s"
  by (auto simp: isValidAbsoluteUrl_def has_scheme_iff split: option.splits)

lemma scheme_without_authority_valid:
  assumes "has_scheme s" and "\<not> has_authority s"
  shows "isValidAbsoluteUrl hp s"
proof -
  from assms(1) obtain sch rest where t: "url_input s = sch @ CHR '':'' # rest" and ne: "sch \<noteq> []"
    and al: "is_ascii_alpha (hd sch)" and sc: "\<forall>c \<in> set sch. is_scheme_char c"
    by (auto simp: has_scheme_def)
  then have ps: "parse_scheme (url_input s) = Some (toLowerCase sch, rest)"
    unfolding parse_scheme_Some by blast
  from assms(2) t sc have "\<not> (toLowerCase sch \<in> special_schemes \<or> startsWith rest ''//'')"
    unfolding has_authority_def by blast
  with ps show ?thesis by (simp add: isValidAbsoluteUrl_def)
qed

text \<open>
  Claim C6, as amended. When the traversal of a direct request yields a match, the handler
  answers with a 302 only when \<open>new URL\<close> accepts the match's URL, and an accepted URL has
  a scheme. When \<open>new URL\<close> rejects the match's URL, as it does for every URL without a
  scheme, the handler answers with the 404 diagnostic whose context holds the request URL,
  the upstream URL and the whole match (\<open>url\<close>, \<open>fileType\<close>, \<open>jsonPath\<close>).
\<close>

theorem match_url_validation:
  assumes "yields_match pf request m"
  shows "((\<exists>r. snd (fetch pf request) = Returns r \<and> status r = 302) \<longrightarrow>
            isValidAbsoluteUrl (host_parses pf) (url m) \<and> has_scheme (url m))
    \<and> (\<not> isValidAbsoluteUrl (host_parses pf) (url m) \<longrightarrow>
         (\<exists>up. buildUpstreamMetadataUrl (req_url request) = Some up
            \<and> snd (fetch pf request) =
                Returns (notFoundWithContext ''Matched entry had an invalid URL.''
                  [(''requestUrl'', JStr (href (req_url request))),
                   (''upstreamUrl'', JStr (href (searchParams_delete up ''direct''))),
                   (''match'', JObj [(''url'', JStr (url m)), (''fileType'', JStr (fileType m)),
                                     (''jsonPath'', JStr (jsonPath m))])])))
    \<and> (\<not> has_scheme (url m) \<longrightarrow> \<not> isValidAbsoluteUrl (host_parses pf) (url m))"
proof -
  from assms obtain res doc up where a: "buildUpstreamMetadataUrl (req_url request) = Some up"
    "isDirectJsonRequest (req_url request)"
    "global_fetch pf (json_get (searchParams_delete up ''direct'')) = Inr res"
    "ok res" "up_json res = Inr doc" "findFirstDirectMatch_json doc = Some m"
    by (auto simp: yields_match_def direct_fetch_Some ok_def)
  have only: "isValidAbsoluteUrl (host_parses pf) (url m)"
    if "\<exists>r. snd (fetch pf request) = Returns r \<and> status r = 302"
  proof (rule ccontr)
    assume "\<not> isValidAbsoluteUrl (host_parses pf) (url m)"
    from fetch_direct_invalid [OF a this] that show False
      by (simp add: status_notFoundWithContext)
  qed
  show ?thesis
    using only fetch_direct_invalid [OF a] a(1)
      valid_has_scheme [of "host_parses pf" "url m"]
    by blast
qed

text \<open>
  The theorem at the matched URLs \<open>https://dl.example/foo.zip\<close>, which is redirected to, and
  \<open>not a url\<close>, which has no scheme.
\<close>

theorem match_url_validation_witness:
  "yields_match
     (serving (Inr (json_response 200
        (JObj [(''file_type'', JStr ''zip''), (''url'', JStr ''https://dl.example/foo.zip'')])))
        (\<lambda>s r. True))
     (get_request (worker_url ''/java/metadata/ga/linux/x86_64/foo.json'' (Some ''direct'')))
     \<lparr>url = ''https://dl.example/foo.zip'', fileType = ''zip'', jsonPath = []\<rparr>
   \<and> snd (fetch
       (serving (Inr (json_response 200
        (JObj [(''file_type'', JStr ''zip''), (''url'', JStr ''https://dl.example/foo.zip'')])))
        (\<lambda>s r. True))
       (get_request (worker_url ''/java/metadata/ga/linux/x86_64/foo.json'' (Some ''direct''))))
     = Returns \<lparr>status = 302,
         headers = [(''location'', ''https://dl.example/foo.zip''), (''cache-control'', ''no-store'')],
         body = None\<rparr>
   \<and> isValidAbsoluteUrl (\<lambda>s r. True) ''https://dl.example/foo.zip''
   \<and> has_scheme ''https://dl.example/foo.zip''
   \<and> yields_match
     (serving (Inr (json_response 200
        (JObj [(''file_type'', JStr ''zip''), (''url'', JStr ''not a url'')])))
        (\<lambda>s r. True))
     (get_request (worker_url ''/java/metadata/ga/linux/x86_64/foo.json'' (Some ''direct'')))
     \<lparr>url = ''not a url'', fileType = ''zip'', jsonPath = []\<rparr>
   \<and> \<not> has_scheme ''not a url''
   \<and> snd (fetch
       (serving (Inr (json_response 200
        (JObj [(''file_type'', JStr ''zip''), (''url'', JStr ''not a url'')])))
        (\<lambda>s r. True))
       (get_request (worker_url ''/java/metadata/ga/linux/x86_64/foo.json'' (Some ''direct''))))
     = Returns (notFoundWithContext ''Matched entry had an invalid URL.''
         [(''requestUrl'', JStr ''https://worker.example/java/metadata/ga/linux/x86_64/foo.json?direct''),
          (''upstreamUrl'', JStr ''https://jbangdev.github.io/jdkdb-data/metadata/ga/linux/x86_64/foo.json''),
          (''match'', JObj [(''url'', JStr ''not a url''), (''fileType'', JStr ''zip''),
                            (''jsonPath'', JStr [])])])"
proof -
  have v: "isValidAbsoluteUrl (\<lambda>s r. True) ''https://dl.example/foo.zip''"
    by (simp add: eval_valid)
  have h: "header_value_ok ''https://dl.example/foo.zip''" "normalize_header_value ''https://dl.example/foo.zip'' = ''https://dl.example/foo.zip''"
    by (simp_all add: eval_header)
  have n: "\<not> has_scheme ''not a url''"
    by (simp add: has_scheme_iff eval_valid)
  have y1: "yields_match
     (serving (Inr (json_response 200
        (JObj [(''file_type'', JStr ''zip''), (''url'', JStr ''https://dl.example/foo.zip'')])))
        (\<lambda>s r. True))
     (get_request (worker_url ''/java/metadata/ga/linux/x86_64/foo.json'' (Some ''direct'')))
     \<lparr>url = ''https://dl.example/foo.zip'', fileType = ''zip'', jsonPath = []\<rparr>"
    by (rule yields_zip_match) simp
  have y2: "yields_match
     (serving (Inr (json_response 200
        (JObj [(''file_type'', JStr ''zip''), (''url'', JStr ''not a url'')])))
        (\<lambda>s r. True))
     (get_request (worker_url ''/java/metadata/ga/linux/x86_64/foo.json'' (Some ''direct'')))
     \<lparr>url = ''not a url'', fileType = ''zip'', jsonPath = []\<rparr>"
    by (rule yields_zip_match) simp
  have r1: "snd (fetch
       (serving (Inr (json_response 200
        (JObj [(''file_type'', JStr ''zip''), (''url'', JStr ''https://dl.example/foo.zip'')])))
        (\<lambda>s r. True))
       (get_request (worker_url ''/java/metadata/ga/linux/x86_64/foo.json'' (Some ''direct''))))
     = Returns \<lparr>status = 302,
         headers = [(''location'', ''https://dl.example/foo.zip''), (''cache-control'', ''no-store'')],
         body = None\<rparr>"
    using fetch_zip_redirect [OF _ v] h by simp
  then have "\<exists>r. snd (fetch
       (serving (Inr (json_response 200
        (JObj [(''file_type'', JStr ''zip''), (''url'', JStr ''https://dl.example/foo.zip'')])))
        (\<lambda>s r. True))
       (get_request (worker_url ''/java/metadata/ga/linux/x86_64/foo.json'' (Some ''direct'')))) = Returns r \<and> status r = 302"
    by simp
  with match_url_validation [OF y1] have s1: "has_scheme ''https://dl.example/foo.zip''"
    by simp
  have nv: "\<not> isValidAbsoluteUrl (\<lambda>s r. True) ''not a url''"
    using n valid_has_scheme by blast
  have hr: "href (worker_url ''/java/metadata/ga/linux/x86_64/foo.json'' (Some ''direct''))
      = ''https://worker.example/java/metadata/ga/linux/x86_64/foo.json?direct''"
    "href (foo_upstream None)
      = ''https://jbangdev.github.io/jdkdb-data/metadata/ga/linux/x86_64/foo.json''"
    by (simp_all add: href_def worker_url_def foo_upstream_def)
  from match_url_validation [OF y2] nv have r2: "snd (fetch
       (serving (Inr (json_response 200
        (JObj [(''file_type'', JStr ''zip''), (''url'', JStr ''not a url'')])))
        (\<lambda>s r. True))
       (get_request (worker_url ''/java/metadata/ga/linux/x86_64/foo.json'' (Some ''direct''))))
     = Returns (notFoundWithContext ''Matched entry had an invalid URL.''
         [(''requestUrl'', JStr ''https://worker.example/java/metadata/ga/linux/x86_64/foo.json?direct''),
          (''upstreamUrl'', JStr ''https://jbangdev.github.io/jdkdb-data/metadata/ga/linux/x86_64/foo.json''),
          (''match'', JObj [(''url'', JStr ''not a url''), (''fileType'', JStr ''zip''),
                            (''jsonPath'', JStr [])])])"
    by (simp add: serving_def get_request_def foo_upstream_url foo_delete_direct hr)
  from r1 r2 y1 y2 n v s1 show ?thesis by blast
qed

text \<open>
  The URL \<open>mailto:x\<close> has a scheme and no authority, and the handler redirects to it, even on
  a platform whose URL parser accepts no authority at all.
\<close>

theorem match_url_validation_counterexample:
  "yields_match
     (serving (Inr (json_response 200
        (JObj [(''file_type'', JStr ''zip''), (''url'', JStr ''mailto:x'')])))
        (\<lambda>s r. False))
     (get_request (worker_url ''/java/metadata/ga/linux/x86_64/foo.json'' (Some ''direct'')))
     \<lparr>url = ''mailto:x'', fileType = ''zip'', jsonPath = []\<rparr>
   \<and> has_scheme ''mailto:x'' \<and> \<not> has_authority ''mailto:x''
   \<and> snd (fetch
       (serving (Inr (json_response 200
        (JObj [(''file_type'', JStr ''zip''), (''url'', JStr ''mailto:x'')])))
        (\<lambda>s r. False))
       (get_request (worker_url ''/java/metadata/ga/linux/x86_64/foo.json'' (Some ''direct''))))
     = Returns \<lparr>status = 302,
         headers = [(''location'', ''mailto:x''), (''cache-control'', ''no-store'')],
         body = None\<rparr>"
proof -
  have v: "isValidAbsoluteUrl (\<lambda>s r. False) ''mailto:x''"
    by (simp add: eval_valid)
  have h: "header_value_ok ''mailto:x''" "normalize_header_value ''mailto:x'' = ''mailto:x''"
    by (simp_all add: eval_header)
  have hs: "has_scheme ''mailto:x''"
    by (simp add: has_scheme_iff eval_valid)
  have na: "\<not> has_authority ''mailto:x''"
    by (simp add: has_authority_iff eval_valid)
  have y: "yields_match
     (serving (Inr (json_response 200
        (JObj [(''file_type'', JStr ''zip''), (''url'', JStr ''mailto:x'')])))
        (\<lambda>s r. False))
     (get_request (worker_url ''/java/metadata/ga/linux/x86_64/foo.json'' (Some ''direct'')))
     \<lparr>url = ''mailto:x'', fileType = ''zip'', jsonPath = []\<rparr>"
    by (rule yields_zip_match) simp
  have "snd (fetch
       (serving (Inr (json_response 200
        (JObj [(''file_type'', JStr ''zip''), (''url'', JStr ''mailto:x'')])))
        (\<lambda>s r. False))
       (get_request (worker_url ''/java/metadata/ga/linux/x86_64/foo.json'' (Some ''direct''))))
     = Returns \<lparr>status = 302,
         headers = [(''location'', ''mailto:x''), (''cache-control'', ''no-store'')],
         body = None\<rparr>"
    using fetch_zip_redirect [OF _ v] h by simp
  with y hs na show ?thesis by simp
qed

subsection \<open>Query parameters: parsing what the serialiser wrote\<close>

























subsection \<open>Termination of the traversal\<close>

lemma walk_step:
  "walk (Suc n) h seen node path =
     (case node of
        Ref a \<Rightarrow>
          if a \<in> seen then Some (seen, None)
          else
            (case h a of
               None \<Rightarrow> Some (insert a seen, None)
             | Some (Array items) \<Rightarrow> walk_array (walk n h) (insert a seen) items 0 path
             | Some (Object obj) \<Rightarrow>
                 if truthy (fileType_of obj) \<and> truthy (url_of obj)
                    \<and> the (fileType_of obj) \<in> targetTypes
                 then Some (insert a seen,
                   Some \<lparr>url = the (url_of obj), fileType = the (fileType_of obj), jsonPath = path\<rparr>)
                 else walk_entries (walk n h) (insert a seen) obj path)
      | _ \<Rightarrow> Some (seen, None))"
  by (simp add: Let_def split: jsval.split option.split jsobj.split)

declare walk.simps(2) [simp del]












subsection \<open>The traversal of a parsed document\<close>

text \<open>Storing a document only changes the heap at the addresses it takes.\<close>

lemma alloc_frame:
  "alloc x s = (v, h', a') \<Longrightarrow> snd s \<le> a' \<and> (\<forall>y. y < snd s \<or> a' \<le> y \<longrightarrow> h' y = fst s y)"
  "alloc_items xs s = (vs, h', a') \<Longrightarrow> snd s \<le> a' \<and> (\<forall>y. y < snd s \<or> a' \<le> y \<longrightarrow> h' y = fst s y)"
  "alloc_entries kvs s = (es, h', a') \<Longrightarrow> snd s \<le> a' \<and> (\<forall>y. y < snd s \<or> a' \<le> y \<longrightarrow> h' y = fst s y)"
proof (induction x s and xs s and kvs s arbitrary: v h' a' and vs h' a' and es h' a'
    rule: alloc_alloc_items_alloc_entries.induct)
  case (5 xs h a)
  from "5.prems" obtain ws h1 where a: "alloc_items xs (h, Suc a) = (ws, h1, a')"
    and h': "h' = h1(a \<mapsto> Array ws)"
    by (auto split: prod.splits)
  from "5.IH" [OF a] show ?case by (auto simp: h')
next
  case (6 kvs h a)
  from "6.prems" obtain ws h1 where a: "alloc_entries kvs (h, Suc a) = (ws, h1, a')"
    and h': "h' = h1(a \<mapsto> Object ws)"
    by (auto split: prod.splits)
  from "6.IH" [OF a] show ?case by (auto simp: h')
next
  case (8 x xs s)
  from "8.prems" obtain w h1 a1 ws where a: "alloc x s = (w, h1, a1)"
    and b: "alloc_items xs (h1, a1) = (ws, h', a')"
    by (auto split: prod.splits)
  from "8.IH"(1) [OF a] "8.IH"(2) [OF a [symmetric] b] show ?case by auto
next
  case (10 k x kvs s)
  from "10.prems" obtain w h1 a1 ws where a: "alloc x s = (w, h1, a1)"
    and b: "alloc_entries kvs (h1, a1) = (ws, h', a')"
    by (auto split: prod.splits)
  from "10.IH"(1) [OF a] "10.IH"(2) [OF a [symmetric] b] show ?case by auto
qed auto

text \<open>The string fields of a stored object are those of the document's object.\<close>

lemma alloc_String:
  "alloc x s = (v, s') \<Longrightarrow>
     (case v of String t \<Rightarrow> Some t | _ \<Rightarrow> None) = (case x of JStr t \<Rightarrow> Some t | _ \<Rightarrow> None)"
  by (cases x; cases s) (auto split: prod.splits)

lemma alloc_entries_map_of:
  "alloc_entries kvs s = (es, s') \<Longrightarrow>
     (case map_of es key of Some (String t) \<Rightarrow> Some t | _ \<Rightarrow> None) = string_field kvs key"
proof (induction kvs arbitrary: s es s')
  case Nil
  then show ?case by (simp add: string_field_def)
next
  case (Cons kv kvs)
  obtain k x where kv: "kv = (k, x)" by (cases kv)
  from Cons.prems kv obtain w s1 ws where a: "alloc x s = (w, s1)"
    and b: "alloc_entries kvs s1 = (ws, s')" and es: "es = (k, w) # ws"
    by (auto split: prod.splits)
  show ?case
  proof (cases "key = k")
    case True
    with alloc_String [OF a] show ?thesis by (simp add: es kv string_field_def)
  next
    case False
    with Cons.IH [OF b] show ?thesis by (simp add: es kv string_field_def)
  qed
qed

lemma alloc_entries_fields:
  assumes "alloc_entries kvs s = (es, s')"
  shows "fileType_of es = map_option toLowerCase (string_field kvs ''file_type'')"
    and "url_of es = string_field kvs ''url''"
proof -
  from alloc_entries_map_of [OF assms, of "''file_type''"]
  show "fileType_of es = map_option toLowerCase (string_field kvs ''file_type'')"
    unfolding fileType_of_def
    by (cases "map_of es ''file_type''"; cases "string_field kvs ''file_type''")
       (auto split: jsval.splits)
  from alloc_entries_map_of [OF assms, of "''url''"]
  show "url_of es = string_field kvs ''url''"
    unfolding url_of_def
    by (cases "map_of es ''url''"; cases "string_field kvs ''url''")
       (auto split: jsval.splits)
qed

lemma first_some_append:
  "first_some f (xs @ ys) = (case first_some f xs of None \<Rightarrow> first_some f ys | Some y \<Rightarrow> Some y)"
  by (induction xs) (auto split: option.splits)

lemma match_at_leaf:
  "match_at admits (path, JNull) = None" "match_at admits (path, JBool b) = None"
  "match_at admits (path, JNum i) = None" "match_at admits (path, JStr t) = None"
  "match_at admits (path, JArr xs) = None"
  by (simp_all add: match_at_def)

text \<open>The test that \<open>walk\<close> makes on a stored object is the match of the document's object.\<close>

lemma match_at_alloc:
  assumes "alloc_entries kvs s = (es, s')"
  shows "(if truthy (fileType_of es) \<and> truthy (url_of es) \<and> the (fileType_of es) \<in> targetTypes
          then Some \<lparr>url = the (url_of es), fileType = the (fileType_of es), jsonPath = path\<rparr>
          else None)
       = match_at (\<lambda>u. u \<noteq> []) (path, JObj kvs)"
  unfolding alloc_entries_fields [OF assms]
  by (cases "string_field kvs ''file_type''"; cases "string_field kvs ''url''")
     (auto simp: match_at_def truthy_def targetTypes_def)

lemma visits_leaf:
  "0 < n \<Longrightarrow> \<forall>a. v \<noteq> Ref a \<Longrightarrow> visits (walk n H seen v path) seen a a' None"
  by (cases n; cases v) (auto simp: visits_def walk_step)

lemma visits_extend:
  assumes "visits res (insert a seen) (Suc a) a' r" and "Suc a \<le> a'"
  shows "visits res seen a a' r"
proof -
  from assms(1) obtain seen' where res: "res = Some (seen', r)" and sub: "insert a seen \<subseteq> seen'"
    and within: "\<forall>y \<in> seen'. y \<in> insert a seen \<or> (Suc a \<le> y \<and> y < a')"
    unfolding visits_def by blast
  have "\<forall>y \<in> seen'. y \<in> seen \<or> (a \<le> y \<and> y < a')"
  proof
    fix y assume "y \<in> seen'"
    with within have "y \<in> insert a seen \<or> (Suc a \<le> y \<and> y < a')" by blast
    with assms(2) show "y \<in> seen \<or> (a \<le> y \<and> y < a')" by auto
  qed
  with res sub show ?thesis unfolding visits_def by blast
qed

lemma walk_alloc:
  "alloc x s = (v, h', a') \<Longrightarrow> holds_range H h' (snd s) a' \<Longrightarrow> fresh_range seen (snd s) a'
     \<Longrightarrow> a' - snd s < n \<Longrightarrow>
     visits (walk n H seen v path) seen (snd s) a'
       (first_some (match_at (\<lambda>u. u \<noteq> [])) (preorder x path))"
  "alloc_items xs s = (vs, h', a') \<Longrightarrow> holds_range H h' (snd s) a' \<Longrightarrow> fresh_range seen (snd s) a'
     \<Longrightarrow> a' - snd s < n \<Longrightarrow>
     visits (walk_array (walk n H) seen vs i path) seen (snd s) a'
       (first_some (match_at (\<lambda>u. u \<noteq> [])) (preorder_items xs i path))"
  "alloc_entries kvs s = (es, h', a') \<Longrightarrow> holds_range H h' (snd s) a' \<Longrightarrow> fresh_range seen (snd s) a'
     \<Longrightarrow> a' - snd s < n \<Longrightarrow>
     visits (walk_entries (walk n H) seen es path) seen (snd s) a'
       (first_some (match_at (\<lambda>u. u \<noteq> [])) (preorder_entries kvs path))"
proof (induction x s and xs s and kvs s
    arbitrary: v h' a' H seen n path and vs h' a' H seen n i path and es h' a' H seen n path
    rule: alloc_alloc_items_alloc_entries.induct)
  case (1 s)
  then show ?case by (auto simp: match_at_leaf intro: visits_leaf)
next
  case (2 b s)
  then show ?case by (auto simp: match_at_leaf intro: visits_leaf)
next
  case (3 n s)
  then show ?case by (auto simp: match_at_leaf intro: visits_leaf)
next
  case (4 t s)
  then show ?case by (auto simp: match_at_leaf intro: visits_leaf)
next
  case (5 xs h a)
  let ?r = "first_some (match_at (\<lambda>u. u \<noteq> [])) (preorder_items xs 0 path)"
  from "5.prems"(1) obtain ws h1 where al: "alloc_items xs (h, Suc a) = (ws, h1, a')"
    and v: "v = Ref a" and h': "h' = h1(a \<mapsto> Array ws)"
    by (auto split: prod.splits)
  from alloc_frame(2) [OF al] have le: "Suc a \<le> a'" by simp
  with "5.prems"(4) obtain m where n: "n = Suc m" and m: "a' - Suc a < m"
    by (cases n) auto
  from "5.prems"(2) le have Ha: "H a = Some (Array ws)"
    by (simp add: holds_range_def h')
  from "5.prems"(3) le have unseen: "a \<notin> seen" by (auto simp: fresh_range_def)
  from "5.prems"(2) have hr: "holds_range H h1 (snd (h, Suc a)) a'"
    by (auto simp: holds_range_def h')
  from "5.prems"(3) have fr: "fresh_range (insert a seen) (snd (h, Suc a)) a'"
    by (auto simp: fresh_range_def)
  from "5.IH" [OF al hr fr, of m 0 path] m
  have "visits (walk_array (walk m H) (insert a seen) ws 0 path) (insert a seen) (Suc a) a' ?r"
    by simp
  from visits_extend [OF this le] have "visits (walk n H seen v path) seen a a' ?r"
    using unseen Ha by (simp add: n v walk_step)
  then show ?case by (simp add: match_at_leaf)
next
  case (6 kvs h a)
  let ?r = "first_some (match_at (\<lambda>u. u \<noteq> [])) (preorder_entries kvs path)"
  from "6.prems"(1) obtain ws h1 where al: "alloc_entries kvs (h, Suc a) = (ws, h1, a')"
    and v: "v = Ref a" and h': "h' = h1(a \<mapsto> Object ws)"
    by (auto split: prod.splits)
  from alloc_frame(3) [OF al] have le: "Suc a \<le> a'" by simp
  with "6.prems"(4) obtain m where n: "n = Suc m" and m: "a' - Suc a < m"
    by (cases n) auto
  from "6.prems"(2) le have Ha: "H a = Some (Object ws)"
    by (simp add: holds_range_def h')
  from "6.prems"(3) le have unseen: "a \<notin> seen" by (auto simp: fresh_range_def)
  note test = match_at_alloc [OF al, of path]
  show ?case
  proof (cases "match_at (\<lambda>u. u \<noteq> []) (path, JObj kvs)")
    case (Some hit)
    with test have "walk n H seen v path = Some (insert a seen, Some hit)"
      using unseen Ha by (auto simp: n v walk_step split: if_splits)
    with le Some show ?thesis by (auto simp: visits_def)
  next
    case None
    with test have w: "walk n H seen v path = walk_entries (walk m H) (insert a seen) ws path"
      using unseen Ha by (auto simp: n v walk_step split: if_splits)
    from "6.prems"(2) have hr: "holds_range H h1 (snd (h, Suc a)) a'"
      by (auto simp: holds_range_def h')
    from "6.prems"(3) have fr: "fresh_range (insert a seen) (snd (h, Suc a)) a'"
      by (auto simp: fresh_range_def)
    from "6.IH" [OF al hr fr, of m path] m
    have "visits (walk_entries (walk m H) (insert a seen) ws path) (insert a seen) (Suc a) a' ?r"
      by simp
    from visits_extend [OF this le] have "visits (walk n H seen v path) seen a a' ?r"
      unfolding w .
    with None show ?thesis by simp
  qed
next
  case (7 s)
  then show ?case by (auto simp: visits_def)
next
  case (8 x xs s)
  let ?m = "match_at (\<lambda>u. u \<noteq> [])"
  let ?p = "path @ ''['' @ show_nat i @ '']''"
  from "8.prems"(1) obtain w h1 a1 ws where a: "alloc x s = (w, h1, a1)"
    and b: "alloc_items xs (h1, a1) = (ws, h', a')" and vs: "vs = w # ws"
    by (auto split: prod.splits)
  from alloc_frame(1) [OF a] have le1: "snd s \<le> a1" by simp
  from alloc_frame(2) [OF b] have le2: "a1 \<le> a'" and same: "\<forall>y. y < a1 \<longrightarrow> h' y = h1 y"
    by simp_all
  from "8.prems"(2) same le2 have hr1: "holds_range H h1 (snd s) a1"
    by (auto simp: holds_range_def)
  from "8.prems"(3) le2 have fr1: "fresh_range seen (snd s) a1"
    by (fastforce simp: fresh_range_def)
  from "8.prems"(4) le2 have n1: "a1 - snd s < n" by simp
  from "8.IH"(1) [OF a hr1 fr1 n1, of ?p] obtain s1
    where w1: "walk n H seen w ?p = Some (s1, first_some ?m (preorder x ?p))"
      and sub1: "seen \<subseteq> s1" and in1: "\<forall>y \<in> s1. y \<in> seen \<or> (snd s \<le> y \<and> y < a1)"
    by (auto simp: visits_def)
  show ?case
  proof (cases "first_some ?m (preorder x ?p)")
    case (Some hit)
    with w1 sub1 in1 le2 show ?thesis
      by (fastforce simp: visits_def vs first_some_append)
  next
    case None
    from "8.prems"(2) le1 have hr2: "holds_range H h' (snd (h1, a1)) a'"
      by (auto simp: holds_range_def)
    from "8.prems"(3) in1 le1 have fr2: "fresh_range s1 (snd (h1, a1)) a'"
      by (fastforce simp: fresh_range_def)
    from "8.prems"(4) le1 have n2: "a' - snd (h1, a1) < n" by simp
    from "8.IH"(2) [OF a [symmetric] b hr2 fr2 n2, of "Suc i" path] obtain s2
      where w2: "walk_array (walk n H) s1 ws (Suc i) path
          = Some (s2, first_some ?m (preorder_items xs (Suc i) path))"
        and sub2: "s1 \<subseteq> s2" and in2: "\<forall>y \<in> s2. y \<in> s1 \<or> (a1 \<le> y \<and> y < a')"
      by (auto simp: visits_def)
    from in1 in2 le1 le2 have "\<forall>y \<in> s2. y \<in> seen \<or> (snd s \<le> y \<and> y < a')" by fastforce
    with w1 w2 sub1 sub2 None show ?thesis
      by (auto simp: visits_def vs first_some_append)
  qed
next
  case (9 s)
  then show ?case by (auto simp: visits_def)
next
  case (10 k x kvs s)
  let ?m = "match_at (\<lambda>u. u \<noteq> [])"
  let ?p = "if path \<noteq> [] then path @ ''.'' @ k else k"
  have p: "(if path = [] then k else path @ ''.'' @ k) = ?p" by simp
  from "10.prems"(1) obtain w h1 a1 ws where a: "alloc x s = (w, h1, a1)"
    and b: "alloc_entries kvs (h1, a1) = (ws, h', a')" and es: "es = (k, w) # ws"
    by (auto split: prod.splits)
  from alloc_frame(1) [OF a] have le1: "snd s \<le> a1" by simp
  from alloc_frame(3) [OF b] have le2: "a1 \<le> a'" and same: "\<forall>y. y < a1 \<longrightarrow> h' y = h1 y"
    by simp_all
  from "10.prems"(2) same le2 have hr1: "holds_range H h1 (snd s) a1"
    by (auto simp: holds_range_def)
  from "10.prems"(3) le2 have fr1: "fresh_range seen (snd s) a1"
    by (fastforce simp: fresh_range_def)
  from "10.prems"(4) le2 have n1: "a1 - snd s < n" by simp
  from "10.IH"(1) [OF a hr1 fr1 n1, of ?p] obtain s1
    where w1: "walk n H seen w ?p = Some (s1, first_some ?m (preorder x ?p))"
      and sub1: "seen \<subseteq> s1" and in1: "\<forall>y \<in> s1. y \<in> seen \<or> (snd s \<le> y \<and> y < a1)"
    by (auto simp: visits_def)
  show ?case
  proof (cases "first_some ?m (preorder x ?p)")
    case (Some hit)
    with w1 sub1 in1 le2 show ?thesis
      unfolding es preorder.simps p
      by (fastforce simp: visits_def first_some_append)
  next
    case None
    from "10.prems"(2) le1 have hr2: "holds_range H h' (snd (h1, a1)) a'"
      by (auto simp: holds_range_def)
    from "10.prems"(3) in1 le1 have fr2: "fresh_range s1 (snd (h1, a1)) a'"
      by (fastforce simp: fresh_range_def)
    from "10.prems"(4) le1 have n2: "a' - snd (h1, a1) < n" by simp
    from "10.IH"(2) [OF a [symmetric] b hr2 fr2 n2, of path] obtain s2
      where w2: "walk_entries (walk n H) s1 ws path
          = Some (s2, first_some ?m (preorder_entries kvs path))"
        and sub2: "s1 \<subseteq> s2" and in2: "\<forall>y \<in> s2. y \<in> s1 \<or> (a1 \<le> y \<and> y < a')"
      by (auto simp: visits_def)
    from in1 in2 le1 le2 have "\<forall>y \<in> s2. y \<in> seen \<or> (snd s \<le> y \<and> y < a')" by fastforce
    with w1 w2 sub1 sub2 None show ?thesis
      unfolding es preorder.simps p
      by (auto simp: visits_def first_some_append)
  qed
qed

lemma first_some_Some:
  "first_some f xs = Some y \<longleftrightarrow>
     (\<exists>before x after. xs = before @ x # after \<and> f x = Some y \<and> (\<forall>z \<in> set before. f z = None))"
proof (induction xs)
  case Nil
  show ?case by simp
next
  case (Cons x xs)
  show ?case
  proof (cases "f x")
    case None
    have "(\<exists>before x' after. x # xs = before @ x' # after \<and> f x' = Some y \<and> (\<forall>z \<in> set before. f z = None))
        \<longleftrightarrow> (\<exists>before x' after. xs = before @ x' # after \<and> f x' = Some y \<and> (\<forall>z \<in> set before. f z = None))"
    proof
      assume "\<exists>before x' after. x # xs = before @ x' # after \<and> f x' = Some y \<and> (\<forall>z \<in> set before. f z = None)"
      then obtain before x' after where e: "x # xs = before @ x' # after" and fx: "f x' = Some y"
        and b: "\<forall>z \<in> set before. f z = None" by blast
      from e fx None obtain b' where "before = x # b'" by (cases before) auto
      with e b fx show "\<exists>before x' after. xs = before @ x' # after \<and> f x' = Some y \<and> (\<forall>z \<in> set before. f z = None)"
        by auto
    next
      assume "\<exists>before x' after. xs = before @ x' # after \<and> f x' = Some y \<and> (\<forall>z \<in> set before. f z = None)"
      then obtain before x' after where e: "xs = before @ x' # after" and fx: "f x' = Some y"
        and b: "\<forall>z \<in> set before. f z = None" by blast
      from e have "x # xs = (x # before) @ x' # after" by simp
      moreover from b None have "\<forall>z \<in> set (x # before). f z = None" by simp
      ultimately show "\<exists>before x' after. x # xs = before @ x' # after \<and> f x' = Some y \<and> (\<forall>z \<in> set before. f z = None)"
        using fx by blast
    qed
    with None Cons.IH show ?thesis by simp
  next
    case (Some y')
    have "(\<exists>before x' after. x # xs = before @ x' # after \<and> f x' = Some y \<and> (\<forall>z \<in> set before. f z = None))
        \<longleftrightarrow> y' = y"
    proof
      assume "\<exists>before x' after. x # xs = before @ x' # after \<and> f x' = Some y \<and> (\<forall>z \<in> set before. f z = None)"
      then obtain before x' after where e: "x # xs = before @ x' # after" and fx: "f x' = Some y"
        and b: "\<forall>z \<in> set before. f z = None" by blast
      show "y' = y"
      proof (cases before)
        case Nil
        with e fx Some show ?thesis by simp
      next
        case (Cons c cs)
        with e b Some show ?thesis by auto
      qed
    next
      assume "y' = y"
      with Some have "x # xs = [] @ x # xs \<and> f x = Some y \<and> (\<forall>z \<in> set []. f z = None)" by simp
      then show "\<exists>before x' after. x # xs = before @ x' # after \<and> f x' = Some y \<and> (\<forall>z \<in> set before. f z = None)"
        by blast
    qed
    with Some show ?thesis by simp
  qed
qed

lemma first_some_None: "first_some f xs = None \<longleftrightarrow> (\<forall>x \<in> set xs. f x = None)"
  by (induction xs) (auto split: option.splits)

lemma findFirstDirectMatch_json_first_match:
  "findFirstDirectMatch_json doc = first_match (\<lambda>u. u \<noteq> []) doc"
proof -
  obtain v h a where al: "alloc doc (Map.empty, 0) = (v, h, a)" by (cases "alloc doc (Map.empty, 0)")
  have "holds_range h h (snd (Map.empty :: heap, 0 :: addr)) a" by (simp add: holds_range_def)
  moreover have "fresh_range {} (snd (Map.empty :: heap, 0 :: addr)) a" by (simp add: fresh_range_def)
  moreover have "a - snd (Map.empty :: heap, 0 :: addr) < Suc a" by simp
  ultimately have "visits (walk (Suc a) h {} v []) {} (snd (Map.empty :: heap, 0 :: addr)) a
      (first_some (match_at (\<lambda>u. u \<noteq> [])) (preorder doc []))"
    by (rule walk_alloc(1) [OF al])
  then have "findFirstDirectMatch (Suc a) h v = Some (first_some (match_at (\<lambda>u. u \<noteq> [])) (preorder doc []))"
    by (auto simp: visits_def findFirstDirectMatch_def)
  with al show ?thesis by (simp add: findFirstDirectMatch_json_def first_match_def)
qed

lemma match_at_weaken: "match_at (\<lambda>u. True) node = None \<Longrightarrow> match_at admits node = None"
  by (auto simp: match_at_def split: json.splits option.splits if_splits)

text \<open>
  Claim C1, as amended. For every parsed document, \<open>findFirstDirectMatch\<close> returns the first
  node in pre-order (a node before its members, array members in index order, object members
  in the order of the entries) that is an object with a string \<open>file_type\<close> equal to \<open>tar.gz\<close>
  or \<open>zip\<close> in any letter case and a string \<open>url\<close> that is not empty: the \<open>url\<close> as it
  stands, the \<open>fileType\<close> in lower case, and as \<open>jsonPath\<close> the dotted and bracketed path of
  the node. It returns no match exactly when no node is such an object, and so also when no
  object has both fields with a qualifying \<open>file_type\<close> and a string \<open>url\<close>.
\<close>

theorem findFirstDirectMatch_first_in_preorder:
  "(findFirstDirectMatch_json doc = Some m \<longleftrightarrow>
      (\<exists>before node after. preorder doc [] = before @ node # after
         \<and> match_at (\<lambda>u. u \<noteq> []) node = Some m
         \<and> (\<forall>earlier \<in> set before. match_at (\<lambda>u. u \<noteq> []) earlier = None)))
   \<and> (findFirstDirectMatch_json doc = None \<longleftrightarrow>
        (\<forall>node \<in> set (preorder doc []). match_at (\<lambda>u. u \<noteq> []) node = None))
   \<and> ((\<forall>node \<in> set (preorder doc []). match_at (\<lambda>u. True) node = None) \<longrightarrow>
        findFirstDirectMatch_json doc = None)"
  unfolding findFirstDirectMatch_json_first_match first_match_def first_some_Some first_some_None
  using match_at_weaken by blast

lemmas eval_preorder = show_nat.simps digit_char_def match_at_def string_field_def
  toLowerCase_def toLowerCase_char_def

text \<open>
  The theorem at the document \<open>{"a": [{"file_type": "exe", "url": "x"}, {"file_type":
  "TAR.GZ", "url": "http://h/f.tar.gz"}]}\<close>, whose match is the node at \<open>a[1]\<close>, and at a
  document without a match.
\<close>

theorem findFirstDirectMatch_first_in_preorder_witness:
  "preorder traversal_example [] =
     [([], traversal_example),
      (''a'', JArr [JObj [(''file_type'', JStr ''exe''), (''url'', JStr ''x'')],
                   JObj [(''file_type'', JStr ''TAR.GZ''), (''url'', JStr ''http://h/f.tar.gz'')]]),
      (''a[0]'', JObj [(''file_type'', JStr ''exe''), (''url'', JStr ''x'')]),
      (''a[0].file_type'', JStr ''exe''),
      (''a[0].url'', JStr ''x'')]
     @ (''a[1]'', JObj [(''file_type'', JStr ''TAR.GZ''), (''url'', JStr ''http://h/f.tar.gz'')])
     # [(''a[1].file_type'', JStr ''TAR.GZ''), (''a[1].url'', JStr ''http://h/f.tar.gz'')]
   \<and> findFirstDirectMatch_json traversal_example
       = Some \<lparr>url = ''http://h/f.tar.gz'', fileType = ''tar.gz'', jsonPath = ''a[1]''\<rparr>
   \<and> findFirstDirectMatch_json no_match_example = None"
proof -
  let ?before = "[([], traversal_example),
      (''a'', JArr [JObj [(''file_type'', JStr ''exe''), (''url'', JStr ''x'')],
                   JObj [(''file_type'', JStr ''TAR.GZ''), (''url'', JStr ''http://h/f.tar.gz'')]]),
      (''a[0]'', JObj [(''file_type'', JStr ''exe''), (''url'', JStr ''x'')]),
      (''a[0].file_type'', JStr ''exe''),
      (''a[0].url'', JStr ''x'')]"
  let ?node = "(''a[1]'', JObj [(''file_type'', JStr ''TAR.GZ''), (''url'', JStr ''http://h/f.tar.gz'')])"
  let ?after = "[(''a[1].file_type'', JStr ''TAR.GZ''), (''a[1].url'', JStr ''http://h/f.tar.gz'')]"
  let ?m = "\<lparr>url = ''http://h/f.tar.gz'', fileType = ''tar.gz'', jsonPath = ''a[1]''\<rparr>"
  have p: "preorder traversal_example [] = ?before @ ?node # ?after"
    by (simp add: traversal_example_def show_nat.simps digit_char_def)
  have n: "match_at (\<lambda>u. u \<noteq> []) ?node = Some ?m"
    by (simp add: eval_preorder)
  have b: "\<forall>earlier \<in> set ?before. match_at (\<lambda>u. u \<noteq> []) earlier = None"
    by (simp add: traversal_example_def eval_preorder)
  from p n b have "\<exists>before node after. preorder traversal_example [] = before @ node # after
         \<and> match_at (\<lambda>u. u \<noteq> []) node = Some ?m
         \<and> (\<forall>earlier \<in> set before. match_at (\<lambda>u. u \<noteq> []) earlier = None)"
    by blast
  then have r1: "findFirstDirectMatch_json traversal_example = Some ?m"
    using findFirstDirectMatch_first_in_preorder [of traversal_example ?m] by blast
  have "\<forall>node \<in> set (preorder no_match_example []). match_at (\<lambda>u. True) node = None"
    by (simp add: no_match_example_def eval_preorder)
  then have r2: "findFirstDirectMatch_json no_match_example = None"
    using findFirstDirectMatch_first_in_preorder [of no_match_example] by blast
  from p r1 r2 show ?thesis by blast
qed

text \<open>
  An object whose \<open>url\<close> is the empty string is the first match when every string \<open>url\<close> is
  admitted, and the traversal passes it by: alone it yields no match, and before a later
  match it yields the later one.
\<close>

theorem findFirstDirectMatch_first_in_preorder_counterexample:
  "first_match (\<lambda>u. True) (JObj [(''file_type'', JStr ''zip''), (''url'', JStr [])])
     = Some \<lparr>url = [], fileType = ''zip'', jsonPath = []\<rparr>
   \<and> findFirstDirectMatch_json (JObj [(''file_type'', JStr ''zip''), (''url'', JStr [])]) = None
   \<and> first_match (\<lambda>u. True) empty_url_example
     = Some \<lparr>url = [], fileType = ''zip'', jsonPath = ''a''\<rparr>
   \<and> findFirstDirectMatch_json empty_url_example
     = Some \<lparr>url = ''https://h/f.zip'', fileType = ''zip'', jsonPath = ''b''\<rparr>"
  by (simp add: findFirstDirectMatch_json_first_match first_match_def empty_url_example_def
      eval_preorder)

end
